theory Spec2Isabelle
  imports Main "HOL-Library.Word"
begin

unbundle bit_operations_syntax

section \<open>The matrix package (matrix.go)\<close>

text \<open>
  Go panics are values of the type \<open>error\<close>. The panics of the source are grouped under the
  names of the specification's taxonomy:
  \<^item> \<open>IndexOutOfRange\<close>: "Too many rows!", "Too many cols!", "Requesting too many rows";
  \<^item> \<open>DimensionMismatch\<close>: "Dimension mismatch";
  \<^item> \<open>UnsupportedParameter\<close>: "Not yet supported.", "Not yet supported", "LHE requires p | q.";
  \<^item> \<open>RandomnessFailure\<close>: "Randomness error";
  \<^item> \<open>ParameterMismatch\<close>: "Parameter mismatch";
  \<^item> \<open>RuntimeError\<close>: a panic raised by the Go runtime or library and not by a
    \<open>panic\<close> statement of the source (index or slice bounds out of range, integer
    division by zero, \<open>rand.Int\<close> on a non-positive bound), and "Shouldn't get here".
\<close>

datatype error =
    IndexOutOfRange
  | DimensionMismatch
  | UnsupportedParameter
  | RandomnessFailure
  | ParameterMismatch
  | RuntimeError

type_synonym u64 = "64 word"

text \<open>
  \<open>type Matrix[T Elem] struct { rows uint64; cols uint64; data []T }\<close>.
  The element type \<open>T\<close> is \<open>Elem32\<close> or \<open>Elem64\<close>: here \<open>'a word\<close>, with
  \<open>LENGTH('a) = 32\<close> or \<open>64\<close>. The slice \<open>data\<close> is the list of its \<open>len(data)\<close>
  elements. The rest of its backing array, from \<open>len(data)\<close> up to \<open>cap(data)\<close>, can
  be seen only by reslicing, which \<open>DropLastrows\<close> and \<open>GetRow\<close> do: these two take
  that rest as the argument \<open>spare\<close> and return the rest behind their result. The
  exhaustion of memory by \<open>make\<close> or \<open>append\<close> is not represented.
  A method with a pointer receiver that changes the receiver is a function that
  returns the changed matrix.
\<close>

record 'e Matrix =
  rows :: u64
  cols :: u64
  data :: "'e list"

definition Copy :: "'e Matrix \<Rightarrow> 'e Matrix" where
  "Copy m = \<lparr> rows = rows m, cols = cols m, data = data m \<rparr>"

definition Rows :: "'e Matrix \<Rightarrow> u64" where
  "Rows m = rows m"

definition Cols :: "'e Matrix \<Rightarrow> u64" where
  "Cols m = cols m"

definition Size :: "'e Matrix \<Rightarrow> u64" where
  "Size m = rows m * cols m"

text \<open>\<open>make([]T, rows*cols)\<close>: the product is taken in \<open>uint64\<close> and wraps.\<close>

definition New :: "u64 \<Rightarrow> u64 \<Rightarrow> ('a::len) word Matrix" where
  "New r c = \<lparr> rows = r, cols = c, data = replicate (unat (r * c)) 0 \<rparr>"

definition Zeros :: "u64 \<Rightarrow> u64 \<Rightarrow> ('a::len) word Matrix" where
  "Zeros r c = (let out = New r c in out\<lparr> data := map (\<lambda>_. 0) (data out) \<rparr>)"

text \<open>
  \<open>Get\<close> and \<open>Set\<close>. The index \<open>i*m.cols+j\<close> is computed in \<open>uint64\<close>; an index
  beyond the slice is the runtime's panic. \<open>Get\<close> returns \<open>uint64(m.data[...])\<close> and
  \<open>Set\<close> stores \<open>T(val)\<close>.
\<close>

definition Get :: "('a::len) word Matrix \<Rightarrow> u64 \<Rightarrow> u64 \<Rightarrow> error + u64" where
  "Get m i j =
     (if i \<ge> rows m then Inl IndexOutOfRange
      else if j \<ge> cols m then Inl IndexOutOfRange
      else let k = unat (i * cols m + j)
           in if k < length (data m) then Inr (ucast (data m ! k)) else Inl RuntimeError)"

definition Set :: "('a::len) word Matrix \<Rightarrow> u64 \<Rightarrow> u64 \<Rightarrow> u64 \<Rightarrow> error + 'a word Matrix" where
  "Set m val i j =
     (if i \<ge> rows m then Inl IndexOutOfRange
      else if j \<ge> cols m then Inl IndexOutOfRange
      else let k = unat (i * cols m + j)
           in if k < length (data m) then Inr (m\<lparr> data := (data m)[k := ucast val] \<rparr>)
              else Inl RuntimeError)"

text \<open>
  \<open>a.Concat(b)\<close>. An empty receiver (no rows and no columns) takes over the shape and
  the slice of \<open>b\<close>; otherwise the column counts must agree, \<open>a.rows += b.rows\<close> wraps in
  \<open>uint64\<close> and the elements of \<open>b\<close> are appended.
\<close>

definition Concat :: "'e Matrix \<Rightarrow> 'e Matrix \<Rightarrow> error + 'e Matrix" where
  "Concat a b =
     (if cols a = 0 \<and> rows a = 0
      then Inr (a\<lparr> cols := cols b, rows := rows b, data := data b \<rparr>)
      else if cols a \<noteq> cols b then Inl DimensionMismatch
      else Inr (a\<lparr> rows := rows a + rows b, data := data a @ data b \<rparr>))"

text \<open>\<open>m.Concat(Zeros[T](n, 1))\<close>: the appended matrix has one column.\<close>

definition AppendZeros :: "('a::len) word Matrix \<Rightarrow> u64 \<Rightarrow> error + 'a word Matrix" where
  "AppendZeros m n = Concat m (Zeros n 1)"

text \<open>
  \<open>m.rows -= n; m.data = m.data[:(m.rows * m.cols)]\<close>. The subtraction and the product
  wrap in \<open>uint64\<close>. Go allows the bound of \<open>s[:k]\<close> up to \<open>cap(s)\<close>: the new slice is the
  first \<open>k\<close> elements of the backing array, that is of \<open>data\<close> followed by \<open>spare\<close>; a
  bound beyond the capacity is the runtime's panic.
\<close>

definition DropLastrows :: "'e Matrix \<Rightarrow> 'e list \<Rightarrow> u64 \<Rightarrow> error + ('e Matrix \<times> 'e list)" where
  "DropLastrows m spare n =
     (let r = rows m - n; k = unat (r * cols m)
      in if k \<le> length (data m) + length spare
         then Inr (m\<lparr> rows := r, data := take k (data m @ spare) \<rparr>, drop k (data m @ spare))
         else Inl RuntimeError)"

text \<open>
  \<open>GetRow\<close>: the check \<open>offset+num_rows > m.rows\<close> is made in \<open>uint64\<close>, where the sum
  wraps; the result is a new matrix header over the window
  \<open>m.data[offset*cols : (offset+num_rows)*cols]\<close>. Go allows \<open>s[lo:hi]\<close> for
  \<open>lo <= hi <= cap(s)\<close>; the window has \<open>hi - lo\<close> elements and the capacity that is left
  behind it.
\<close>

definition GetRow ::
  "('a::len) word Matrix \<Rightarrow> 'a word list \<Rightarrow> u64 \<Rightarrow> u64
     \<Rightarrow> error + ('a word Matrix \<times> 'a word list)" where
  "GetRow m spare offset num_rows =
     (if offset + num_rows > rows m then Inl IndexOutOfRange
      else let m2 = New num_rows (cols m) :: 'a word Matrix;
               lo = unat (offset * cols m);
               hi = unat ((offset + num_rows) * cols m)
           in if lo \<le> hi \<and> hi \<le> length (data m) + length spare
              then Inr (m2\<lparr> data := take (hi - lo) (drop lo (data m @ spare)) \<rparr>,
                        drop hi (data m @ spare))
              else Inl RuntimeError)"

text \<open>
  The random source. \<open>IoRandSource\<close> is an interface, \<open>crypto/rand.Int\<close> is library
  code and the samplers \<open>lwe.GaussSample32\<close> and \<open>lwe.GaussSample64\<close> live in another
  package: they are parameters of the model. The state of the source is a value of type
  \<open>'s\<close> that every draw takes and returns. \<open>rand_Int src m\<close> is \<open>rand.Int(src, m)\<close> for
  \<open>m > 0\<close>, with \<open>None\<close> for \<open>err != nil\<close>.
\<close>

record 's Samplers =
  rand_Int :: "'s \<Rightarrow> int \<Rightarrow> (nat \<times> 's) option"
  GaussSample32 :: "'s \<Rightarrow> int \<times> 's"
  GaussSample64 :: "'s \<Rightarrow> int \<times> 's"

text \<open>
  The loop of \<open>Rand\<close> over the positions of \<open>out.data\<close>. \<open>rand.Int\<close> panics on a bound
  \<open>m <= 0\<close>; \<open>T(v.Uint64())\<close> keeps the low bits of the draw.
\<close>

fun Rand_loop :: "'s Samplers \<Rightarrow> int \<Rightarrow> 's \<Rightarrow> ('a::len) word list \<Rightarrow> error + ('a word list \<times> 's)" where
  "Rand_loop lib m src [] = Inr ([], src)"
| "Rand_loop lib m src (x # xs) =
     (if m \<le> 0 then Inl RuntimeError
      else case rand_Int lib src m of
             None \<Rightarrow> Inl RandomnessFailure
           | Some (v, src1) \<Rightarrow>
               (case Rand_loop lib m src1 xs of
                  Inl e \<Rightarrow> Inl e
                | Inr (vs, src2) \<Rightarrow> Inr (of_nat v # vs, src2)))"

text \<open>
  \<open>m := big.NewInt(int64(mod)); if mod == 0 { m = big.NewInt(1 << logmod) }\<close>: the shift
  is an \<open>int64\<close> shift, so a count of 64 or more gives 0 and a count of 63 a negative bound.
\<close>

definition Rand :: "'s Samplers \<Rightarrow> 's \<Rightarrow> u64 \<Rightarrow> u64 \<Rightarrow> u64 \<Rightarrow> u64 \<Rightarrow> error + (('a::len) word Matrix \<times> 's)" where
  "Rand lib src r c logmod modulus =
     (let out = New r c :: 'a word Matrix;
          m = (if modulus = 0 then sint (push_bit (unat logmod) (1 :: u64)) else sint modulus)
      in case Rand_loop lib m src (data out) of
           Inl e \<Rightarrow> Inl e
         | Inr (vs, src') \<Rightarrow> Inr (out\<lparr> data := vs \<rparr>, src'))"

text \<open>
  \<open>Is32Bit\<close> and \<open>Is64Bit\<close> inspect the type of \<open>m.data[0]\<close>: on an empty slice the
  index expression panics.
\<close>

definition Is32Bit :: "('a::len) word Matrix \<Rightarrow> error + bool" where
  "Is32Bit m = (if data m = [] then Inl RuntimeError else Inr (LENGTH('a) = 32))"

definition Is64Bit :: "('a::len) word Matrix \<Rightarrow> error + bool" where
  "Is64Bit m = (if data m = [] then Inl RuntimeError else Inr (LENGTH('a) = 64))"

fun Gaussian_loop :: "('s \<Rightarrow> int \<times> 's) \<Rightarrow> 's \<Rightarrow> ('a::len) word list \<Rightarrow> 'a word list \<times> 's" where
  "Gaussian_loop samplef src [] = ([], src)"
| "Gaussian_loop samplef src (x # xs) =
     (let (v, src1) = samplef src;
          (vs, src2) = Gaussian_loop samplef src1 xs
      in (word_of_int v # vs, src2))"

definition Gaussian :: "'s Samplers \<Rightarrow> 's \<Rightarrow> u64 \<Rightarrow> u64 \<Rightarrow> error + (('a::len) word Matrix \<times> 's)" where
  "Gaussian lib src r c =
     (let out = New r c :: 'a word Matrix
      in case Is32Bit out of
           Inl e \<Rightarrow> Inl e
         | Inr is32 \<Rightarrow>
             (case (if is32 then Inr (GaussSample32 lib)
                    else case Is64Bit out of
                           Inl e \<Rightarrow> Inl e
                         | Inr is64 \<Rightarrow> if is64 then Inr (GaussSample64 lib) else Inl RuntimeError) of
                Inl e \<Rightarrow> Inl e
              | Inr samplef \<Rightarrow>
                  (let (vs, src') = Gaussian_loop samplef src (data out)
                   in Inr (out\<lparr> data := vs \<rparr>, src'))))"

subsection \<open>The structural invariant\<close>

text \<open>
  \<open>data.length == rows*cols\<close>, the product being the product of the two numbers: it
  does not overflow \<open>uint64\<close>, so that the row-major index \<open>i*cols+j\<close> of every position
  is exact.
\<close>

definition wellformed :: "'e Matrix \<Rightarrow> bool" where
  "wellformed m \<longleftrightarrow>
     length (data m) = unat (rows m) * unat (cols m) \<and> unat (rows m) * unat (cols m) < 2 ^ 64"

subsection \<open>Arithmetic of the matrix package that the protocol code calls\<close>

text \<open>
  Modelled from the spec: \<open>Mul\<close>, the matrix product, whose source is not in matrix.go
  as given. "Standard matrix product under the element's modulus", matching "the naive
  triple-sum definition mod 2^width"; incompatible shapes are a \<open>DimensionMismatch\<close>.
  The result is a new matrix.
\<close>

definition Mul :: "('a::len) word Matrix \<Rightarrow> 'a word Matrix \<Rightarrow> error + 'a word Matrix" where
  "Mul a b =
     (if cols a \<noteq> rows b then Inl DimensionMismatch
      else Inr \<lparr> rows = rows a, cols = cols b,
                 data = concat (map (\<lambda>i. map (\<lambda>j.
                          (\<Sum>k\<leftarrow>[0..<unat (cols a)].
                              data a ! (i * unat (cols a) + k) * data b ! (k * unat (cols b) + j)))
                          [0..<unat (cols b)]) [0..<unat (rows a)]) \<rparr>)"

text \<open>
  Modelled from the spec: \<open>Add\<close>, whose source is not in matrix.go as given: elementwise
  sum "mod 2^width via native wraparound" into the receiver; incompatible shapes are a
  \<open>DimensionMismatch\<close>.
\<close>

definition Add :: "('a::len) word Matrix \<Rightarrow> 'a word Matrix \<Rightarrow> error + 'a word Matrix" where
  "Add a b =
     (if rows a \<noteq> rows b \<or> cols a \<noteq> cols b then Inl DimensionMismatch
      else Inr (a\<lparr> data := map2 (+) (data a) (data b) \<rparr>))"

text \<open>
  Modelled from the spec: \<open>Sub\<close>, whose source is not in matrix.go as given: elementwise
  difference "mod 2^width via native wraparound" into the receiver; incompatible shapes
  are a \<open>DimensionMismatch\<close>.
\<close>

definition Sub :: "('a::len) word Matrix \<Rightarrow> 'a word Matrix \<Rightarrow> error + 'a word Matrix" where
  "Sub a b =
     (if rows a \<noteq> rows b \<or> cols a \<noteq> cols b then Inl DimensionMismatch
      else Inr (a\<lparr> data := map2 (-) (data a) (data b) \<rparr>))"

text \<open>
  Modelled from the spec: \<open>MulConst\<close>, whose source is not in matrix.go as given: every
  element of the receiver is multiplied by the scalar, mod 2^width.
\<close>

definition MulConst :: "('a::len) word Matrix \<Rightarrow> 'a word \<Rightarrow> 'a word Matrix" where
  "MulConst a c = a\<lparr> data := map (\<lambda>x. x * c) (data a) \<rparr>"

section \<open>The protocol package (QueryLHE, RecoverManyLHE)\<close>

text \<open>
  Modelled from the spec: the declarations of \<open>Params\<close> and \<open>DBInfo\<close>, which are not in the
  source as given. The fields are the ones the protocol code reads (\<open>c.params.N\<close>,
  \<open>c.params.P\<close>, \<open>c.params.Delta\<close>, \<open>c.dbinfo.M\<close>, \<open>c.dbinfo.Ne\<close>, \<open>c.dbinfo.RowLength\<close>,
  \<open>c.dbinfo.Squishing\<close>) and the modulus exponent \<open>logmod\<close> of the specification, here
  \<open>Logq\<close>. They are \<open>uint64\<close>, like the matrix dimensions and the arguments of \<open>Round\<close>
  and \<open>AppendZeros\<close> they are compared with or passed as.
\<close>

record Params =
  N :: u64
  P :: u64
  Logq :: u64
  Delta :: u64

record DBInfo =
  M :: u64
  Ne :: u64
  RowLength :: u64
  Squishing :: u64

text \<open>
  Modelled from the spec: \<open>Params.Round\<close>, whose source is not part of the source as given.
  "Given a ring element v interpreted in [0, Q), returns round(v / Delta) mod P":
  the nearest multiple of \<open>Delta\<close>, halves rounded up, computed without overflow.
\<close>

definition Round :: "Params \<Rightarrow> u64 \<Rightarrow> u64" where
  "Round p v = of_nat (((unat v + unat (Delta p) div 2) div unat (Delta p)) mod unat (P p))"

text \<open>
  Modelled from the spec: the derived constants of \<open>Params\<close>, \<open>Q = 2^logmod\<close> and
  \<open>Delta = floor(Q / P)\<close>.
\<close>

definition Q :: "Params \<Rightarrow> nat" where
  "Q p = 2 ^ unat (Logq p)"

definition derived :: "Params \<Rightarrow> bool" where
  "derived p \<longleftrightarrow> unat (Delta p) = Q p div unat (P p)"

subsection \<open>Matrix objects behind pointers\<close>

text \<open>
  The protocol code works on \<open>*matrix.Matrix[T]\<close>, and QueryLHE keeps a pointer in the
  secret while it goes on changing the matrix behind it. The matrices therefore live in
  a store: a pointer is an index into the list of the objects allocated so far,
  allocation adds an object at the end, and a pointer outside the store stands for
  \<open>nil\<close>, whose dereference is the runtime's panic.
\<close>

type_synonym ptr = nat
type_synonym 'e heap = "'e Matrix list"

definition alloc :: "'e heap \<Rightarrow> 'e Matrix \<Rightarrow> 'e heap \<times> ptr" where
  "alloc h m = (h @ [m], length h)"

definition deref :: "'e heap \<Rightarrow> ptr \<Rightarrow> error + 'e Matrix" where
  "deref h p = (if p < length h then Inr (h ! p) else Inl RuntimeError)"

text \<open>\<open>type SecretLHE[T] struct { query, secret, arr *matrix.Matrix[T] }\<close>.\<close>

record SecretLHE =
  query :: ptr
  secret :: ptr
  arr :: ptr

text \<open>
  Modelled from the spec: the declarations of \<open>Query\<close> and \<open>Answer\<close>, which are not in the
  source as given. "Query wraps a single column Matrix" (the code builds it as
  \<open>&Query[T]{ query }\<close>), and "Answer wraps the Matrix result" (the code reads
  \<open>ansIn.answer\<close>).
\<close>

datatype Query = Query ptr

datatype Answer = Answer (answer: ptr)

text \<open>
  Modelled from the spec: the declaration of \<open>Client\<close>, which is not in the source as
  given: the fields the protocol code reads. \<open>prg\<close> is the state of the random source.
\<close>

record 's Client =
  prg :: 's
  params :: Params
  dbinfo :: DBInfo
  matrixA :: ptr
  hint :: ptr

subsection \<open>QueryLHE\<close>

text \<open>
  The body of \<open>QueryLHE\<close>, statement by statement. The result is either the panic with
  the store at that moment, or the secret and the query with the final store and the
  final state of the random source.
  \<^item> \<open>s.arr\<close> is the pointer \<open>arr\<close> itself, so the secret sees every later change of the
    matrix behind \<open>arr\<close>, in particular \<open>arr.MulConst(T(c.params.Delta))\<close>.
  \<^item> \<open>(1 << c.dbinfo.RowLength)\<close> is a \<open>uint64\<close> shift: a count of 64 or more gives 0.
  \<^item> The call \<open>matrix.Rand[T](c.prg, c.params.N, 1, 0)\<close> has one argument fewer than
    \<open>Rand\<close> of matrix.go has parameters; it is read as the modulus argument \<open>0\<close> (the
    power-of-two modulus) with the exponent \<open>Logq\<close> of the parameters.
  \<^item> \<open>c.dbinfo.M % c.dbinfo.Squishing\<close> panics in the runtime when \<open>Squishing\<close> is 0.
  \<^item> The matrix \<open>Zeros[T](n, 1)\<close> made inside \<open>AppendZeros\<close> is unreachable after the call
    and gets no place in the store.
\<close>

definition QueryLHE ::
  "'s Samplers \<Rightarrow> 's Client \<Rightarrow> ('a::len) word heap \<Rightarrow> ptr
     \<Rightarrow> (error \<times> 'a word heap) + ((SecretLHE \<times> Query) \<times> 'a word heap \<times> 's)" where
  "QueryLHE lib c h arrIn =
     (case deref h arrIn of
        Inl e \<Rightarrow> Inl (e, h)
      | Inr x \<Rightarrow>
     (let (h1, arr_p) = alloc h (Copy x) in
     if Rows (h1 ! arr_p) \<noteq> M (dbinfo c) \<or> Cols (h1 ! arr_p) \<noteq> 1
       then Inl (ParameterMismatch, h1)
     else if Ne (dbinfo c) \<noteq> 1 \<or> push_bit (unat (RowLength (dbinfo c))) (1 :: u64) > P (params c)
       then Inl (UnsupportedParameter, h1)
     else if P (params c) AND (P (params c) - 1) \<noteq> 0
       then Inl (UnsupportedParameter, h1)
     else
     (case Rand lib (prg c) (N (params c)) 1 (Logq (params c)) 0 of
        Inl e \<Rightarrow> Inl (e, h1)
      | Inr (s_mat, prg1) \<Rightarrow>
     (let (h2, secret_p) = alloc h1 s_mat in
     (case Gaussian lib prg1 (M (dbinfo c)) 1 of
        Inl e \<Rightarrow> Inl (e, h2)
      | Inr (e_mat, prg2) \<Rightarrow>
     (let (h3, err_p) = alloc h2 e_mat in
     (case deref h3 (matrixA c) of
        Inl e \<Rightarrow> Inl (e, h3)
      | Inr A \<Rightarrow>
     (case Mul A (h3 ! secret_p) of
        Inl e \<Rightarrow> Inl (e, h3)
      | Inr q0 \<Rightarrow>
     (let (h4, query_p) = alloc h3 q0 in
     (case Add (h4 ! query_p) (h4 ! err_p) of
        Inl e \<Rightarrow> Inl (e, h4)
      | Inr q1 \<Rightarrow>
     (let h5 = h4[query_p := q1];
          h6 = h5[arr_p := MulConst (h5 ! arr_p) (ucast (Delta (params c)))] in
     (case Add (h6 ! query_p) (h6 ! arr_p) of
        Inl e \<Rightarrow> Inl (e, h6)
      | Inr q2 \<Rightarrow>
     (let h7 = h6[query_p := q2] in
     if Squishing (dbinfo c) = 0 then Inl (RuntimeError, h7)
     else
     (case (if M (dbinfo c) mod Squishing (dbinfo c) \<noteq> 0
            then AppendZeros (h7 ! query_p)
                   (Squishing (dbinfo c) - M (dbinfo c) mod Squishing (dbinfo c))
            else Inr (h7 ! query_p)) of
        Inl e \<Rightarrow> Inl (e, h7)
      | Inr q3 \<Rightarrow>
     (let h8 = h7[query_p := q3];
          (h9, s_query_p) = alloc h8 (Copy (h8 ! query_p)) in
     Inr ((\<lparr> query = s_query_p, secret = secret_p, arr = arr_p \<rparr>, Query query_p),
          h9, prg2))))))))))))))))"

subsection \<open>RecoverManyLHE\<close>

text \<open>
  Modelled from the spec: the method \<open>Set(i, j uint64, val T)\<close> of the matrix API that
  the protocol code is written for. It is not in the source as given: matrix.go has
  \<open>Set(val, i, j uint64)\<close>, against which the call \<open>out.Set(row, 0, T(...))\<close>, with an
  element as its last argument, does not type-check. As the spec has it, the method is
  "bounds-checked; fails with IndexOutOfRange when i>=rows or j>=cols", and stores the
  element at the row-major position \<open>i*cols + j\<close>, as \<open>Set\<close> of matrix.go does.
\<close>

definition Set_val :: "('a::len) word Matrix \<Rightarrow> u64 \<Rightarrow> u64 \<Rightarrow> 'a word \<Rightarrow> error + 'a word Matrix" where
  "Set_val m i j val =
     (if i \<ge> rows m then Inl IndexOutOfRange
      else if j \<ge> cols m then Inl IndexOutOfRange
      else let k = unat (i * cols m + j)
           in if k < length (data m) then Inr (m\<lparr> data := (data m)[k := val] \<rparr>)
              else Inl RuntimeError)"

text \<open>
  The loop \<open>for row := uint64(0); row < ans.Rows(); row++\<close> of \<open>RecoverManyLHE\<close>, as a
  recursion over the row numbers \<open>0, 1, ..., ans.Rows() - 1\<close> (the body changes neither
  \<open>ans\<close> nor the counter). \<open>noised\<close> is \<open>uint64(ans.Get(row, 0))\<close>, and
  \<open>out.Set(row, 0, T(denoised % c.params.P))\<close> stores the element \<open>T(denoised % P)\<close> at
  row \<open>row\<close>, column 0. \<open>denoised % c.params.P\<close> panics in the runtime when \<open>P\<close> is 0.
  On a panic the loop hands back the output as it stands.
\<close>

fun recover_loop ::
  "Params \<Rightarrow> ('a::len) word Matrix \<Rightarrow> nat list \<Rightarrow> 'a word Matrix
     \<Rightarrow> (error \<times> 'a word Matrix) + 'a word Matrix" where
  "recover_loop p ans [] out = Inr out"
| "recover_loop p ans (r # rs) out =
     (let row = of_nat r :: u64 in
      case Get ans row 0 of
        Inl e \<Rightarrow> Inl (e, out)
      | Inr noised \<Rightarrow>
          (let denoised = Round p noised in
           if P p = 0 then Inl (RuntimeError, out)
           else (case Set_val out row 0 (ucast (denoised mod P p)) of
                   Inl e \<Rightarrow> Inl (e, out)
                 | Inr out' \<Rightarrow> recover_loop p ans rs out')))"

definition RecoverManyLHE ::
  "'s Client \<Rightarrow> ('a::len) word heap \<Rightarrow> SecretLHE \<Rightarrow> Answer
     \<Rightarrow> (error \<times> 'a word heap) + (ptr \<times> 'a word heap)" where
  "RecoverManyLHE c h sec ansIn =
     (if Ne (dbinfo c) \<noteq> 1 then Inl (UnsupportedParameter, h)
      else
      (case deref h (answer ansIn) of
        Inl e \<Rightarrow> Inl (e, h)
      | Inr a \<Rightarrow>
      (let (h1, ans_p) = alloc h (Copy a) in
      (case deref h1 (hint c) of
        Inl e \<Rightarrow> Inl (e, h1)
      | Inr hm \<Rightarrow>
      (case deref h1 (secret sec) of
        Inl e \<Rightarrow> Inl (e, h1)
      | Inr s \<Rightarrow>
      (case Mul hm s of
        Inl e \<Rightarrow> Inl (e, h1)
      | Inr im \<Rightarrow>
      (let (h2, interm_p) = alloc h1 im in
      (case Sub (h2 ! ans_p) (h2 ! interm_p) of
        Inl e \<Rightarrow> Inl (e, h2)
      | Inr a' \<Rightarrow>
      (let h3 = h2[ans_p := a'];
           (h4, out_p) = alloc h3 (Zeros (Rows (h3 ! ans_p)) 1) in
      (case recover_loop (params c) (h4 ! ans_p) [0..<unat (Rows (h4 ! ans_p))] (h4 ! out_p) of
        Inl (e, out') \<Rightarrow> Inl (e, h4[out_p := out'])
      | Inr out' \<Rightarrow> Inr (out_p, h4[out_p := out'])))))))))))"

subsection \<open>Auxiliary notions for the statements\<close>

text \<open>
  The number of zero rows that \<open>QueryLHE\<close> appends to the query: none when \<open>Squishing\<close>
  divides \<open>M\<close>, and \<open>Squishing - M % Squishing\<close> otherwise.
\<close>

definition padding :: "DBInfo \<Rightarrow> u64" where
  "padding d = (if M d mod Squishing d \<noteq> 0 then Squishing d - M d mod Squishing d else 0)"



text \<open>The store a call leaves behind, whether it returned or panicked.\<close>

definition store_after :: "(error \<times> 'h) + ('r \<times> 'h \<times> 's) \<Rightarrow> 'h" where
  "store_after r = (case r of Inl (e, h) \<Rightarrow> h | Inr (x, h, s) \<Rightarrow> h)"

section \<open>Example inputs\<close>

text \<open>
  Concrete samplers, matrices, parameters, stores and clients on which the theorems
  below are instantiated. The samplers count their draws in the state of the source.
\<close>

definition lib0 :: "nat Samplers" where
  "lib0 = \<lparr> rand_Int = (\<lambda>s m. Some (3, Suc s)),
            GaussSample32 = (\<lambda>s. (1, Suc s)),
            GaussSample64 = (\<lambda>s. (-1, Suc s)) \<rparr>"

definition m0 :: "32 word Matrix" where
  "m0 = \<lparr> rows = 2, cols = 2, data = [1, 2, 3, 4] \<rparr>"

definition v0 :: "32 word Matrix" where
  "v0 = \<lparr> rows = 2, cols = 1, data = [5, 6] \<rparr>"

definition p9 :: Params where
  "p9 = \<lparr> N = 1, P = 9, Logq = 5, Delta = 3 \<rparr>"

definition p4 :: Params where
  "p4 = \<lparr> N = 1, P = 4, Logq = 5, Delta = 8 \<rparr>"

text \<open>
  A client with \<open>N = 1\<close>, \<open>M = 2\<close>, \<open>P = 2\<close>, \<open>Q = 2^32\<close> and \<open>Squishing = 3\<close>, the public
  matrix \<open>A0\<close> and the plaintext vector \<open>x0\<close> in a store; \<open>s0\<close> and \<open>e0\<close> are what the
  samplers \<open>lib0\<close> draw for the secret and the error, and \<open>h0_after\<close> is the store that
  \<open>QueryLHE\<close> leaves.
\<close>

definition x0 :: "32 word Matrix" where
  "x0 = \<lparr> rows = 2, cols = 1, data = [1, 0] \<rparr>"

definition A0 :: "32 word Matrix" where
  "A0 = \<lparr> rows = 2, cols = 1, data = [5, 7] \<rparr>"

definition h0 :: "32 word heap" where
  "h0 = [A0, x0, \<lparr> rows = 1, cols = 1, data = [0] \<rparr>]"

definition c0 :: "nat Client" where
  "c0 = \<lparr> prg = 0, params = \<lparr> N = 1, P = 2, Logq = 32, Delta = 2147483648 \<rparr>,
         dbinfo = \<lparr> M = 2, Ne = 1, RowLength = 1, Squishing = 3 \<rparr>, matrixA = 0, hint = 2 \<rparr>"

definition s0 :: "32 word Matrix" where
  "s0 = \<lparr> rows = 1, cols = 1, data = [3] \<rparr>"

definition e0 :: "32 word Matrix" where
  "e0 = \<lparr> rows = 2, cols = 1, data = [1, 1] \<rparr>"

definition sec0 :: SecretLHE where
  "sec0 = \<lparr> query = 7, secret = 4, arr = 3 \<rparr>"

definition h0_after :: "32 word heap" where
  "h0_after = h0 @
     [\<lparr> rows = 2, cols = 1, data = [2147483648, 0] \<rparr>,
      \<lparr> rows = 1, cols = 1, data = [3] \<rparr>,
      \<lparr> rows = 2, cols = 1, data = [1, 1] \<rparr>,
      \<lparr> rows = 3, cols = 1, data = [2147483664, 22, 0] \<rparr>,
      \<lparr> rows = 3, cols = 1, data = [2147483664, 22, 0] \<rparr>]"

text \<open>The same client with a row length of 64 bits, and with \<open>Ne = 2\<close>.\<close>

definition c64 :: "nat Client" where
  "c64 = c0\<lparr> dbinfo := (dbinfo c0)\<lparr> RowLength := 64 \<rparr> \<rparr>"

definition c_ne2 :: "nat Client" where
  "c_ne2 = c0\<lparr> dbinfo := (dbinfo c0)\<lparr> Ne := 2 \<rparr> \<rparr>"

text \<open>
  A client for recovery with \<open>P = 2\<close>, \<open>Q = 2^3\<close> and \<open>Delta = 4\<close>, whose hint is the object
  0 of the store; the secret is the object 1 and the answer the object 2. In \<open>hR1\<close> the
  hint and the secret are \<open>zR1\<close> and the answer is \<open>aR1\<close>.
\<close>

definition cR :: "nat Client" where
  "cR = \<lparr> prg = 0, params = \<lparr> N = 1, P = 2, Logq = 3, Delta = 4 \<rparr>,
         dbinfo = \<lparr> M = 2, Ne = 1, RowLength = 1, Squishing = 1 \<rparr>, matrixA = 0, hint = 0 \<rparr>"

definition sR :: SecretLHE where
  "sR = \<lparr> query = 2, secret = 1, arr = 1 \<rparr>"

definition aR1 :: "32 word Matrix" where
  "aR1 = \<lparr> rows = 1, cols = 1, data = [4] \<rparr>"

definition zR1 :: "32 word Matrix" where
  "zR1 = \<lparr> rows = 1, cols = 1, data = [0] \<rparr>"

definition hR1 :: "32 word heap" where
  "hR1 = [zR1, zR1, aR1]"

definition hR2 :: "32 word heap" where
  "hR2 = [\<lparr> rows = 2, cols = 1, data = [0, 0] \<rparr>, \<lparr> rows = 1, cols = 1, data = [0] \<rparr>,
          \<lparr> rows = 2, cols = 1, data = [0, 1] \<rparr>]"

section \<open>Properties of the matrix package\<close>

subsection \<open>The sampling loops fill every position\<close>

lemma Rand_loop_length: "Rand_loop lib m src xs = Inr (vs, src') \<Longrightarrow> length vs = length xs"
  by (induction xs arbitrary: src vs) (auto split: if_splits option.splits sum.splits)

lemma Gaussian_loop_length: "Gaussian_loop f src xs = (vs, src') \<Longrightarrow> length vs = length xs"
  by (induction xs arbitrary: src vs) (auto split: prod.splits)


subsection \<open>Get and Set\<close>

lemma index_in_range:
  assumes "wellformed m" "i < rows m" "j < cols m"
  shows "unat (i * cols m + j) = unat i * unat (cols m) + unat j"
    and "unat i * unat (cols m) + unat j < length (data m)"
proof -
  have i: "unat i < unat (rows m)" and j: "unat j < unat (cols m)"
    using assms by (simp_all add: word_less_nat_alt)
  have "unat i * unat (cols m) + unat j < Suc (unat i) * unat (cols m)"
    using j by simp
  also have "\<dots> \<le> unat (rows m) * unat (cols m)"
    using i by (intro mult_le_mono1) simp
  finally show lt: "unat i * unat (cols m) + unat j < length (data m)"
    using assms(1) by (simp add: wellformed_def)
  then have b: "unat i * unat (cols m) + unat j < 2 ^ 64"
    using assms(1) by (simp add: wellformed_def)
  then have "unat i * unat (cols m) < 2 ^ 64" by simp
  then have "unat (i * cols m) = unat i * unat (cols m)"
    by (simp add: unat_mult_lem [THEN iffD1])
  then show "unat (i * cols m + j) = unat i * unat (cols m) + unat j"
    using b by (simp add: unat_add_lem [THEN iffD1])
qed

lemma Get_wellformed:
  assumes "wellformed m" "i < rows m" "j < cols m"
  shows "Get m i j = Inr (ucast (data m ! (unat i * unat (cols m) + unat j)))"
  using assms index_in_range [OF assms]
  by (simp add: Get_def Let_def not_le [symmetric])

lemma Set_wellformed:
  assumes "wellformed m" "i < rows m" "j < cols m"
  shows "Set m v i j = Inr (m\<lparr> data := (data m)[unat i * unat (cols m) + unat j := ucast v] \<rparr>)"
  using assms index_in_range [OF assms]
  by (simp add: Set_def Let_def not_le [symmetric])

lemma Get_IndexOutOfRange_iff:
  "Get m i j = Inl IndexOutOfRange \<longleftrightarrow> i \<ge> rows m \<or> j \<ge> cols m"
  by (simp add: Get_def Let_def)

lemma Set_IndexOutOfRange_iff:
  "Set m v i j = Inl IndexOutOfRange \<longleftrightarrow> i \<ge> rows m \<or> j \<ge> cols m"
  by (simp add: Set_def Let_def)

lemma index_inj:
  fixes c :: nat
  assumes "i * c + j = i' * c + j'" "j < c" "j' < c"
  shows "i = i' \<and> j = j'"
proof -
  have "(i * c + j) div c = i" "(i' * c + j') div c = i'"
    using assms(2,3) by simp_all
  then have "i = i'" by (simp add: assms(1))
  then show ?thesis using assms(1) by simp
qed

lemma wellformed_Set:
  "wellformed m \<Longrightarrow> Set m v i j = Inr m' \<Longrightarrow> wellformed m'"
  by (auto simp: Set_def Let_def wellformed_def split: if_splits)


text \<open>
  Claim C9. For a matrix whose \<open>rows * cols\<close> elements are all there, \<open>Get(i,j)\<close> and
  \<open>Set(v,i,j)\<close> fail with \<open>IndexOutOfRange\<close> exactly when \<open>i >= rows\<close> or \<open>j >= cols\<close>.
  Otherwise \<open>Get\<close> returns the element at the row-major position \<open>i*cols + j\<close>, and
  \<open>Set\<close> returns the matrix with that one element replaced: the dimensions stay, the
  position reads back the stored value and every other position reads as before.
\<close>

theorem Get_Set_bounds:
  fixes m :: "('a::len) word Matrix"
  assumes "wellformed m"
  shows "(Get m i j = Inl IndexOutOfRange \<longleftrightarrow> i \<ge> rows m \<or> j \<ge> cols m)
       \<and> (Set m v i j = Inl IndexOutOfRange \<longleftrightarrow> i \<ge> rows m \<or> j \<ge> cols m)
       \<and> (i < rows m \<and> j < cols m \<longrightarrow>
            unat i * unat (cols m) + unat j < length (data m)
          \<and> Get m i j = Inr (ucast (data m ! (unat i * unat (cols m) + unat j)))
          \<and> (\<exists>m'. Set m v i j = Inr m'
                \<and> rows m' = rows m \<and> cols m' = cols m
                \<and> data m' = (data m)[unat i * unat (cols m) + unat j := ucast v]
                \<and> Get m' i j = Inr (ucast (ucast v :: 'a word))
                \<and> (\<forall>i' j'. (i', j') \<noteq> (i, j) \<longrightarrow> Get m' i' j' = Get m i' j')))"
proof (intro conjI impI)
  show "Get m i j = Inl IndexOutOfRange \<longleftrightarrow> i \<ge> rows m \<or> j \<ge> cols m"
    by (rule Get_IndexOutOfRange_iff)
  show "Set m v i j = Inl IndexOutOfRange \<longleftrightarrow> i \<ge> rows m \<or> j \<ge> cols m"
    by (rule Set_IndexOutOfRange_iff)
next
  assume "i < rows m \<and> j < cols m"
  then have ij: "i < rows m" "j < cols m" by simp_all
  let ?k = "unat i * unat (cols m) + unat j"
  show k: "?k < length (data m)"
    by (rule index_in_range [OF assms ij])
  show "Get m i j = Inr (ucast (data m ! ?k))"
    by (rule Get_wellformed [OF assms ij])
  let ?m' = "m\<lparr> data := (data m)[?k := ucast v] \<rparr>"
  have S: "Set m v i j = Inr ?m'"
    by (rule Set_wellformed [OF assms ij])
  have wf': "wellformed ?m'"
    using assms by (simp add: wellformed_def)
  have G: "Get ?m' i j = Inr (ucast (ucast v :: 'a word))"
    using Get_wellformed [OF wf'] ij k by simp
  have other: "Get ?m' i' j' = Get m i' j'" if ne: "(i', j') \<noteq> (i, j)" for i' j'
  proof (cases "i' < rows m \<and> j' < cols m")
    case True
    then have ij': "i' < rows m" "j' < cols m" by simp_all
    have "unat i' * unat (cols m) + unat j' \<noteq> ?k"
    proof
      assume "unat i' * unat (cols m) + unat j' = ?k"
      then have "unat i' = unat i \<and> unat j' = unat j"
        using ij ij' by (intro index_inj [of _ "unat (cols m)"]) (simp_all add: word_less_nat_alt)
      then show False using ne by (simp add: word_unat_eq_iff)
    qed
    then show ?thesis
      using Get_wellformed [OF wf', of i' j'] Get_wellformed [OF assms ij'] ij' by simp
  next
    case False
    then show ?thesis by (auto simp: Get_def not_less)
  qed
  show "\<exists>m'. Set m v i j = Inr m' \<and> rows m' = rows m \<and> cols m' = cols m
          \<and> data m' = (data m)[?k := ucast v]
          \<and> Get m' i j = Inr (ucast (ucast v :: 'a word))
          \<and> (\<forall>i' j'. (i', j') \<noteq> (i, j) \<longrightarrow> Get m' i' j' = Get m i' j')"
    using S G other by (intro exI [of _ ?m']) simp
qed

lemma wf0: "wellformed m0"
  by (simp add: wellformed_def m0_def)

theorem Get_Set_bounds_witness:
  "wellformed m0 \<and> Get m0 1 0 = Inr 3
   \<and> (\<exists>m'. Set m0 9 1 0 = Inr m' \<and> data m' = [1, 2, 9, 4] \<and> Get m' 1 0 = Inr 9)
   \<and> Get m0 2 0 = Inl IndexOutOfRange \<and> Get m0 0 2 = Inl IndexOutOfRange"
  using Get_Set_bounds [OF wf0, of 1 0 9] Get_Set_bounds [OF wf0, of 2 0 9]
    Get_Set_bounds [OF wf0, of 0 2 9] wf0
  by (simp add: m0_def) blast

subsection \<open>Concat\<close>

lemma Concat_empty: "rows a = 0 \<and> cols a = 0 \<Longrightarrow> Concat a b = Inr b"
  by (simp add: Concat_def)

lemma Concat_mismatch:
  "cols a \<noteq> cols b \<Longrightarrow> \<not> (rows a = 0 \<and> cols a = 0) \<Longrightarrow> Concat a b = Inl DimensionMismatch"
  by (auto simp: Concat_def)

lemma Concat_stack:
  "cols a = cols b \<Longrightarrow> \<not> (rows a = 0 \<and> cols a = 0) \<Longrightarrow>
   Concat a b = Inr (a\<lparr> rows := rows a + rows b, data := data a @ data b \<rparr>)"
  by (auto simp: Concat_def)

lemma rows_no_overflow:
  assumes "wellformed a" "wellformed b" "cols a = cols b" "cols a \<noteq> 0"
    and "length (data a) + length (data b) < 2 ^ 64"
  shows "unat (rows a + rows b) = unat (rows a) + unat (rows b)"
proof -
  have c: "0 < unat (cols a)"
    using assms(4) by (simp add: unat_gt_0)
  have "unat (rows a) + unat (rows b) \<le> (unat (rows a) + unat (rows b)) * unat (cols a)"
    using c by simp
  also have "\<dots> = length (data a) + length (data b)"
    using assms(1-3) by (simp add: wellformed_def distrib_right)
  finally have "unat (rows a) + unat (rows b) < 2 ^ 64"
    using assms(5) by simp
  then show ?thesis
    by (simp add: unat_add_lem [THEN iffD1])
qed

lemma wellformed_stack:
  assumes "wellformed a" "wellformed b" "cols a = cols b"
    and "length (data a) + length (data b) < 2 ^ 64"
  shows "wellformed (a\<lparr> rows := rows a + rows b, data := data a @ data b \<rparr>)"
proof (cases "cols a = 0")
  case True
  then show ?thesis using assms(1-3) by (simp add: wellformed_def)
next
  case False
  from rows_no_overflow [OF assms(1-3) False assms(4)] assms show ?thesis
    by (simp add: wellformed_def distrib_right)
qed

lemma Get_stack_upper:
  assumes wf: "wellformed a" "wellformed b" and c: "cols a = cols b"
    and len: "length (data a) + length (data b) < 2 ^ 64"
    and ij: "i < rows a" "j < cols a"
  shows "Get (a\<lparr> rows := rows a + rows b, data := data a @ data b \<rparr>) i j = Get a i j"
proof -
  let ?r = "a\<lparr> rows := rows a + rows b, data := data a @ data b \<rparr>"
  have c0: "cols a \<noteq> 0" using ij(2) by auto
  have wr: "wellformed ?r" by (rule wellformed_stack [OF wf c len])
  have "unat i < unat (rows a) + unat (rows b)"
    using ij(1) by (simp add: word_less_nat_alt)
  then have "i < rows ?r"
    using rows_no_overflow [OF wf c c0 len] by (simp add: word_less_nat_alt)
  then have "Get ?r i j = Inr (ucast ((data a @ data b) ! (unat i * unat (cols a) + unat j)))"
    using Get_wellformed [OF wr, of i j] ij(2) by simp
  also have "\<dots> = Get a i j"
    using Get_wellformed [OF wf(1) ij] index_in_range(2) [OF wf(1) ij] by (simp add: nth_append)
  finally show ?thesis .
qed

lemma Get_stack_lower:
  assumes wf: "wellformed a" "wellformed b" and c: "cols a = cols b"
    and len: "length (data a) + length (data b) < 2 ^ 64"
    and ij: "rows a \<le> i" "i < rows a + rows b" "j < cols a"
  shows "Get (a\<lparr> rows := rows a + rows b, data := data a @ data b \<rparr>) i j = Get b (i - rows a) j"
proof -
  let ?r = "a\<lparr> rows := rows a + rows b, data := data a @ data b \<rparr>"
  let ?c = "unat (cols a)"
  have c0: "cols a \<noteq> 0" using ij(3) by auto
  have wr: "wellformed ?r" by (rule wellformed_stack [OF wf c len])
  have sum: "unat (rows a + rows b) = unat (rows a) + unat (rows b)"
    by (rule rows_no_overflow [OF wf c c0 len])
  have le: "unat (rows a) \<le> unat i" and lt: "unat i < unat (rows a) + unat (rows b)"
    using ij(1,2) sum by (simp_all add: word_le_nat_alt word_less_nat_alt)
  have d: "unat (i - rows a) = unat i - unat (rows a)"
    using ij(1) by (simp add: unat_sub)
  then have ib: "i - rows a < rows b"
    using le lt by (simp add: word_less_nat_alt)
  have jb: "j < cols b" using ij(3) c by simp
  have la: "length (data a) = unat (rows a) * ?c"
    using wf(1) by (simp add: wellformed_def)
  have m: "unat (rows a) * ?c \<le> unat i * ?c"
    using le by (rule mult_le_mono1)
  then have k': "\<not> unat i * ?c + unat j < length (data a)"
    unfolding la by linarith
  have "unat i * ?c + unat j - unat (rows a) * ?c = (unat i * ?c - unat (rows a) * ?c) + unat j"
    using m by linarith
  then have k: "unat i * ?c + unat j - length (data a) = (unat i - unat (rows a)) * ?c + unat j"
    by (simp add: la diff_mult_distrib)
  have "Get ?r i j = Inr (ucast ((data a @ data b) ! (unat i * ?c + unat j)))"
    using Get_wellformed [OF wr, of i j] ij(2,3) by simp
  also have "\<dots> = Inr (ucast (data b ! ((unat i - unat (rows a)) * ?c + unat j)))"
    using k k' by (simp add: nth_append)
  also have "\<dots> = Get b (i - rows a) j"
    using Get_wellformed [OF wf(2) ib jb] d c by simp
  finally show ?thesis .
qed


text \<open>
  Claim C6. For matrices \<open>a\<close> and \<open>b\<close> with the same number of columns that hold their
  elements (the appended slice being one that Go can hold), \<open>Concat\<close> yields a matrix
  with \<open>rows a + rows b\<close> rows and the columns of \<open>a\<close>, in which \<open>Get(i,j)\<close> is
  \<open>a.Get(i,j)\<close> for \<open>i < rows a\<close> and \<open>b.Get(i - rows a, j)\<close> for the rows after them.
  With different column counts \<open>Concat\<close> fails with \<open>DimensionMismatch\<close>, except for an
  empty receiver (no rows, no columns), which takes over the shape and the data of \<open>b\<close>.
\<close>

theorem Concat_correct:
  fixes a b :: "('a::len) word Matrix"
  shows "(wellformed a \<and> wellformed b \<and> cols a = cols b
            \<and> length (data a) + length (data b) < 2 ^ 64 \<longrightarrow>
          (\<exists>r. Concat a b = Inr r \<and> rows r = rows a + rows b \<and> cols r = cols a
             \<and> (\<forall>i j. i < rows a \<and> j < cols a \<longrightarrow> Get r i j = Get a i j)
             \<and> (\<forall>i j. rows a \<le> i \<and> i < rows a + rows b \<and> j < cols a \<longrightarrow>
                    Get r i j = Get b (i - rows a) j)))
       \<and> (cols a \<noteq> cols b \<and> \<not> (rows a = 0 \<and> cols a = 0) \<longrightarrow>
            Concat a b = Inl DimensionMismatch)
       \<and> (rows a = 0 \<and> cols a = 0 \<longrightarrow> Concat a b = Inr b)"
proof (intro conjI impI)
  assume "rows a = 0 \<and> cols a = 0"
  then show "Concat a b = Inr b" by (rule Concat_empty)
next
  assume "cols a \<noteq> cols b \<and> \<not> (rows a = 0 \<and> cols a = 0)"
  then show "Concat a b = Inl DimensionMismatch" by (simp add: Concat_mismatch)
next
  assume "wellformed a \<and> wellformed b \<and> cols a = cols b
            \<and> length (data a) + length (data b) < 2 ^ 64"
  then have wf: "wellformed a" "wellformed b" and c: "cols a = cols b"
    and len: "length (data a) + length (data b) < 2 ^ 64"
    by simp_all
  show "\<exists>r. Concat a b = Inr r \<and> rows r = rows a + rows b \<and> cols r = cols a
             \<and> (\<forall>i j. i < rows a \<and> j < cols a \<longrightarrow> Get r i j = Get a i j)
             \<and> (\<forall>i j. rows a \<le> i \<and> i < rows a + rows b \<and> j < cols a \<longrightarrow>
                    Get r i j = Get b (i - rows a) j)"
  proof (cases "rows a = 0 \<and> cols a = 0")
    case True
    then have "Concat a b = Inr b" by (rule Concat_empty)
    then show ?thesis using True c by simp
  next
    case False
    let ?r = "a\<lparr> rows := rows a + rows b, data := data a @ data b \<rparr>"
    have "Concat a b = Inr ?r" using c False by (rule Concat_stack)
    moreover have "Get ?r i j = Get a i j" if "i < rows a \<and> j < cols a" for i j
      using that Get_stack_upper [OF wf c len] by simp
    moreover have "Get ?r i j = Get b (i - rows a) j"
      if "rows a \<le> i \<and> i < rows a + rows b \<and> j < cols a" for i j
      using that Get_stack_lower [OF wf c len] by simp
    ultimately show ?thesis by (intro exI [of _ ?r]) simp
  qed
qed

lemma wf_v0: "wellformed v0"
  by (simp add: wellformed_def v0_def)


theorem Concat_correct_witness:
  "wellformed v0 \<and> (\<exists>r. Concat v0 v0 = Inr r \<and> rows r = 4 \<and> cols r = 1
        \<and> Get r 1 0 = Inr 6 \<and> Get r 2 0 = Inr 5)
   \<and> Concat v0 m0 = Inl DimensionMismatch
   \<and> Concat \<lparr> rows = 0, cols = 0, data = [] \<rparr> m0 = Inr m0"
proof -
  have h: "wellformed v0 \<and> wellformed v0 \<and> cols v0 = cols v0
            \<and> length (data v0) + length (data v0) < 2 ^ 64"
    using wf_v0 by (simp add: v0_def)
  with Concat_correct [of v0 v0] obtain r where r:
    "Concat v0 v0 = Inr r" "rows r = rows v0 + rows v0" "cols r = cols v0"
    "\<forall>i j. i < rows v0 \<and> j < cols v0 \<longrightarrow> Get r i j = Get v0 i j"
    "\<forall>i j. rows v0 \<le> i \<and> i < rows v0 + rows v0 \<and> j < cols v0 \<longrightarrow>
       Get r i j = Get v0 (i - rows v0) j"
    by blast
  have g: "Get v0 1 0 = Inr 6" "Get v0 (2 - rows v0) 0 = Inr 5"
    "(1 :: u64) < rows v0 \<and> (0 :: u64) < cols v0"
    "rows v0 \<le> (2 :: u64) \<and> (2 :: u64) < rows v0 + rows v0 \<and> (0 :: u64) < cols v0"
    by code_simp+
  have "Get r 1 0 = Inr 6" "Get r 2 0 = Inr 5"
    using r(4) [rule_format, of 1 0] r(5) [rule_format, of 2 0] g by simp_all
  moreover have "rows r = 4" "cols r = 1"
    using r(2,3) by (simp_all add: v0_def)
  moreover have "Concat v0 m0 = Inl DimensionMismatch"
    using Concat_correct [of v0 m0] by (simp add: v0_def m0_def)
  moreover have "Concat \<lparr> rows = 0, cols = 0, data = [] \<rparr> m0 = Inr m0"
    using Concat_correct [of "\<lparr> rows = 0, cols = 0, data = [] \<rparr>" m0] by simp
  ultimately show ?thesis
    using h r(1) by blast
qed

subsection \<open>AppendZeros\<close>

lemma wellformed_Zeros_col: "wellformed (Zeros n 1)"
  using unsigned_less [of n, where 'a = nat] by (simp add: wellformed_def Zeros_def New_def)

lemma Get_Zeros_col: "i < n \<Longrightarrow> Get (Zeros n 1) i 0 = Inr 0"
  using Get_wellformed [OF wellformed_Zeros_col, of i n 0]
  by (simp add: Zeros_def New_def word_less_nat_alt)


text \<open>
  Claim C4, as stated, fails: \<open>AppendZeros\<close> appends \<open>Zeros(n, 1)\<close>, a matrix of one
  column, so on a matrix of two columns it is a \<open>DimensionMismatch\<close>.
\<close>

theorem AppendZeros_counterexample:
  "wellformed m0 \<and> AppendZeros m0 1 = Inl DimensionMismatch"
  by (simp add: wellformed_def m0_def AppendZeros_def Concat_def Zeros_def New_def)


text \<open>
  Claim C4, amended. For a matrix of one column that holds its elements (\<open>rows + n\<close>
  not overflowing), \<open>AppendZeros(n)\<close> succeeds as \<open>Concat\<close> with \<open>Zeros(n, 1)\<close>: the row
  count grows by \<open>n\<close>, the entries stored before read as before and the \<open>n\<close> appended
  rows read 0. On a matrix of another column count it fails with \<open>DimensionMismatch\<close>,
  unless the matrix is empty (no rows, no columns), which becomes \<open>Zeros(n, 1)\<close>.
\<close>

theorem AppendZeros_column:
  fixes m :: "('a::len) word Matrix"
  shows "(wellformed m \<and> cols m = 1 \<and> unat (rows m) + unat n < 2 ^ 64 \<longrightarrow>
           (\<exists>m'. AppendZeros m n = Inr m' \<and> Concat m (Zeros n 1) = Inr m'
              \<and> rows m' = rows m + n \<and> cols m' = 1
              \<and> data m' = data m @ replicate (unat n) 0
              \<and> (\<forall>i. i < rows m \<longrightarrow> Get m' i 0 = Get m i 0)
              \<and> (\<forall>i. rows m \<le> i \<and> i < rows m + n \<longrightarrow> Get m' i 0 = Inr 0)))
       \<and> (cols m \<noteq> 1 \<and> \<not> (rows m = 0 \<and> cols m = 0) \<longrightarrow>
            AppendZeros m n = Inl DimensionMismatch)
       \<and> (rows m = 0 \<and> cols m = 0 \<longrightarrow> AppendZeros m n = Inr (Zeros n 1))"
proof (intro conjI impI)
  assume "rows m = 0 \<and> cols m = 0"
  then show "AppendZeros m n = Inr (Zeros n 1)"
    unfolding AppendZeros_def by (rule Concat_empty)
next
  assume "cols m \<noteq> 1 \<and> \<not> (rows m = 0 \<and> cols m = 0)"
  then show "AppendZeros m n = Inl DimensionMismatch"
    unfolding AppendZeros_def by (intro Concat_mismatch) (simp_all add: Zeros_def New_def)
next
  assume "wellformed m \<and> cols m = 1 \<and> unat (rows m) + unat n < 2 ^ 64"
  then have wf: "wellformed m" and c1: "cols m = 1" and n: "unat (rows m) + unat n < 2 ^ 64"
    by simp_all
  let ?z = "Zeros n 1 :: 'a word Matrix"
  let ?m' = "m\<lparr> rows := rows m + rows ?z, data := data m @ data ?z \<rparr>"
  have z: "rows ?z = n" "cols ?z = 1" "data ?z = replicate (unat n) 0"
    by (simp_all add: Zeros_def New_def)
  have c: "cols m = cols ?z" using c1 z by simp
  have len: "length (data m) + length (data ?z) < 2 ^ 64"
    using wf c1 n by (simp add: wellformed_def z)
  have C: "Concat m ?z = Inr ?m'"
    using c c1 by (intro Concat_stack) simp_all
  have up: "Get ?m' i 0 = Get m i 0" if "i < rows m" for i
    using Get_stack_upper [OF wf wellformed_Zeros_col c len that] c1 by simp
  have lo: "Get ?m' i 0 = Inr 0" if "rows m \<le> i \<and> i < rows m + n" for i
  proof -
    have "unat (rows m + n) = unat (rows m) + unat n"
      using n by (simp add: unat_add_lem [THEN iffD1])
    then have "i - rows m < n"
      using that by (simp add: word_less_nat_alt word_le_nat_alt unat_sub) arith
    then have "Get ?z (i - rows m) 0 = Inr 0" by (rule Get_Zeros_col)
    then show ?thesis
      using Get_stack_lower [OF wf wellformed_Zeros_col c len, of i 0] that c1 z by simp
  qed
  show "\<exists>m'. AppendZeros m n = Inr m' \<and> Concat m (Zeros n 1) = Inr m'
              \<and> rows m' = rows m + n \<and> cols m' = 1
              \<and> data m' = data m @ replicate (unat n) 0
              \<and> (\<forall>i. i < rows m \<longrightarrow> Get m' i 0 = Get m i 0)
              \<and> (\<forall>i. rows m \<le> i \<and> i < rows m + n \<longrightarrow> Get m' i 0 = Inr 0)"
    using C up lo c1 z by (intro exI [of _ ?m']) (simp add: AppendZeros_def)
qed


theorem AppendZeros_column_witness:
  "wellformed v0 \<and> cols v0 = 1 \<and> unat (rows v0) + unat (2 :: u64) < 2 ^ 64
   \<and> (\<exists>m'. AppendZeros v0 2 = Inr m' \<and> rows m' = 4 \<and> data m' = [5, 6, 0, 0]
         \<and> Get m' 1 0 = Inr 6 \<and> Get m' 3 0 = Inr 0)
   \<and> AppendZeros m0 2 = Inl DimensionMismatch
   \<and> AppendZeros \<lparr> rows = 0, cols = 0, data = [] \<rparr> 2 = Inr (Zeros 2 1 :: 32 word Matrix)"
proof -
  have h: "wellformed v0 \<and> cols v0 = 1 \<and> unat (rows v0) + unat (2 :: u64) < 2 ^ 64"
    using wf_v0 by (simp add: v0_def)
  with AppendZeros_column [of v0 2] obtain m' where m':
    "AppendZeros v0 2 = Inr m'" "rows m' = rows v0 + 2"
    "data m' = data v0 @ replicate (unat (2 :: u64)) 0"
    "\<forall>i. i < rows v0 \<longrightarrow> Get m' i 0 = Get v0 i 0"
    "\<forall>i. rows v0 \<le> i \<and> i < rows v0 + 2 \<longrightarrow> Get m' i 0 = Inr 0"
    by blast
  have g: "Get v0 1 0 = Inr 6" "(1 :: u64) < rows v0"
    "rows v0 \<le> (3 :: u64) \<and> (3 :: u64) < rows v0 + 2"
    by code_simp+
  have "Get m' 1 0 = Inr 6" "Get m' 3 0 = Inr 0"
    using m'(4) [rule_format, of 1] m'(5) [rule_format, of 3] g by simp_all
  moreover have "rows v0 + 2 = 4" "data v0 @ replicate (unat (2 :: u64)) 0 = [5, 6, 0, 0]"
    by code_simp+
  then have "rows m' = 4" "data m' = [5, 6, 0, 0]"
    using m'(2,3) by simp_all
  moreover have "AppendZeros m0 2 = Inl DimensionMismatch"
    using AppendZeros_column [of m0 2] by (simp add: m0_def)
  moreover have "AppendZeros \<lparr> rows = 0, cols = 0, data = [] \<rparr> 2 = Inr (Zeros 2 1 :: 32 word Matrix)"
    using AppendZeros_column [of "\<lparr> rows = 0, cols = 0, data = [] \<rparr> :: 32 word Matrix" 2] by simp
  ultimately show ?thesis
    using h m'(1) by blast
qed


subsection \<open>The structural invariant\<close>

lemma unat_mult_exact:
  fixes r c :: u64
  assumes "unat r * unat c < 2 ^ 64"
  shows "unat (r * c) = unat r * unat c"
  using assms by (simp add: unat_mult_lem [THEN iffD1])

lemma wellformed_New:
  "unat r * unat c < 2 ^ 64 \<Longrightarrow> wellformed (New r c)"
  by (simp add: wellformed_def New_def unat_mult_exact)

lemma wellformed_Zeros:
  "unat r * unat c < 2 ^ 64 \<Longrightarrow> wellformed (Zeros r c)"
  by (simp add: wellformed_def New_def Zeros_def unat_mult_exact)

lemma wellformed_Copy: "wellformed m \<Longrightarrow> wellformed (Copy m)"
  by (simp add: wellformed_def Copy_def)

lemma wellformed_Rand:
  "unat r * unat c < 2 ^ 64 \<Longrightarrow> Rand lib src r c logmod md = Inr (m, src') \<Longrightarrow> wellformed m"
  by (auto simp: Rand_def Let_def wellformed_def New_def unat_mult_exact
           split: sum.splits dest!: Rand_loop_length)

lemma wellformed_Gaussian:
  "unat r * unat c < 2 ^ 64 \<Longrightarrow> Gaussian lib src r c = Inr (m, src') \<Longrightarrow> wellformed m"
  by (auto simp: Gaussian_def Let_def wellformed_def New_def unat_mult_exact
           split: sum.splits prod.splits if_splits dest!: Gaussian_loop_length)

lemma DropLastrows_wellformed:
  assumes wf: "wellformed m" and n: "n \<le> rows m"
  shows "DropLastrows m spare n =
           Inr (m\<lparr> rows := rows m - n,
                  data := take (unat (rows m - n) * unat (cols m)) (data m) \<rparr>,
                drop (unat (rows m - n) * unat (cols m)) (data m @ spare))"
    and "wellformed (m\<lparr> rows := rows m - n,
                  data := take (unat (rows m - n) * unat (cols m)) (data m) \<rparr>)"
proof -
  let ?r = "rows m - n" and ?c = "unat (cols m)"
  have r: "unat ?r = unat (rows m) - unat n"
    using n by (simp add: unat_sub)
  then have le: "unat ?r * ?c \<le> unat (rows m) * ?c"
    by (intro mult_le_mono1) simp
  have lt: "unat ?r * ?c < 2 ^ 64" and len: "unat ?r * ?c \<le> length (data m)"
    using wf le unfolding wellformed_def by linarith+
  have k: "unat (?r * cols m) = unat ?r * ?c"
    by (rule unat_mult_exact [OF lt])
  show "DropLastrows m spare n =
           Inr (m\<lparr> rows := ?r, data := take (unat ?r * ?c) (data m) \<rparr>,
                drop (unat ?r * ?c) (data m @ spare))"
    using len by (simp add: DropLastrows_def Let_def k)
  show "wellformed (m\<lparr> rows := ?r, data := take (unat ?r * ?c) (data m) \<rparr>)"
    using len lt by (simp add: wellformed_def)
qed

lemma GetRow_wellformed:
  fixes m :: "('a::len) word Matrix"
  assumes wf: "wellformed m" and b: "unat offset + unat num_rows \<le> unat (rows m)"
  shows "GetRow m spare offset num_rows =
           Inr (\<lparr> rows = num_rows, cols = cols m,
                  data = take (unat num_rows * unat (cols m))
                           (drop (unat offset * unat (cols m)) (data m)) \<rparr>,
                drop ((unat offset + unat num_rows) * unat (cols m)) (data m @ spare))"
    and "wellformed \<lparr> rows = num_rows, cols = cols m,
                  data = take (unat num_rows * unat (cols m))
                           (drop (unat offset * unat (cols m)) (data m)) \<rparr>"
proof -
  let ?c = "unat (cols m)" and ?o = "unat offset" and ?n = "unat num_rows"
  have R: "unat (rows m) < 2 ^ 64"
    using unsigned_less [of "rows m", where 'a = nat] by simp
  have sum: "unat (offset + num_rows) = ?o + ?n"
    using b R by (simp add: unat_add_lem [THEN iffD1])
  then have chk: "\<not> offset + num_rows > rows m"
    using b by (simp add: word_less_nat_alt)
  have hi_le: "(?o + ?n) * ?c \<le> unat (rows m) * ?c"
    using b by (intro mult_le_mono1)
  have hi_lt: "(?o + ?n) * ?c < 2 ^ 64" and hi_len: "(?o + ?n) * ?c \<le> length (data m)"
    using wf hi_le unfolding wellformed_def by linarith+
  have lo_lt: "?o * ?c < 2 ^ 64" and n_lt: "?n * ?c < 2 ^ 64"
    using hi_lt by (simp_all add: distrib_right)
  have lo: "unat (offset * cols m) = ?o * ?c"
    by (rule unat_mult_exact [OF lo_lt])
  have hi: "unat ((offset + num_rows) * cols m) = (?o + ?n) * ?c"
    using unat_mult_exact [of "offset + num_rows" "cols m"] hi_lt sum by simp
  have d: "(?o + ?n) * ?c - ?o * ?c = ?n * ?c"
    by (simp add: distrib_right)
  have tk: "take (?n * ?c) (drop (?o * ?c) (data m @ spare))
          = take (?n * ?c) (drop (?o * ?c) (data m))"
    using hi_len by (simp add: distrib_right)
  show "GetRow m spare offset num_rows =
           Inr (\<lparr> rows = num_rows, cols = cols m,
                  data = take (?n * ?c) (drop (?o * ?c) (data m)) \<rparr>,
                drop ((?o + ?n) * ?c) (data m @ spare))"
    using chk hi_len by (simp add: GetRow_def Let_def New_def lo hi d tk del: drop_append take_append)
  show "wellformed \<lparr> rows = num_rows, cols = cols m,
                  data = take (?n * ?c) (drop (?o * ?c) (data m)) \<rparr>"
    using hi_len n_lt by (simp add: wellformed_def distrib_right)
qed

text \<open>
  The second call of \<open>DropLastrows\<close> below reslices into the capacity that the first one
  left behind: the two rows are back.
\<close>

lemma DropLastrows_into_capacity:
  "DropLastrows m0 [] 1 = Inr (\<lparr> rows = 1, cols = 2, data = [1, 2] \<rparr>, [3, 4])
   \<and> DropLastrows \<lparr> rows = 1, cols = 2, data = [1, 2 :: 32 word] \<rparr> [3, 4] 18446744073709551615
       = Inr (m0, [])"
  by (simp add: m0_def DropLastrows_def)


text \<open>
  Claim C8, as stated, fails where the dimensions overflow \<open>uint64\<close>.
  \<open>New(2^32, 2^32)\<close> makes a slice of \<open>2^64 mod 2^64 = 0\<close> elements for a matrix of
  \<open>2^32\<close> rows and columns. On the 2-by-2 matrix \<open>m0\<close>, \<open>DropLastrows(2^63 + 1)\<close> wraps
  \<open>rows\<close> to \<open>2^63 + 1\<close> and keeps 2 elements, and \<open>GetRow(2^63, 2^63 + 1)\<close> passes the
  check, the sum wrapping to 1, and returns \<open>2^63 + 1\<close> rows over 2 elements.
\<close>

theorem wellformed_counterexample:
  "data (New 4294967296 4294967296 :: 32 word Matrix) = []
   \<and> unat (rows (New 4294967296 4294967296 :: 32 word Matrix))
       * unat (cols (New 4294967296 4294967296 :: 32 word Matrix)) = 2 ^ 64
   \<and> \<not> wellformed (New 4294967296 4294967296 :: 32 word Matrix)
   \<and> wellformed m0
   \<and> DropLastrows m0 [] 9223372036854775809
       = Inr (\<lparr> rows = 9223372036854775809, cols = 2, data = [1, 2] \<rparr>, [3, 4])
   \<and> \<not> wellformed \<lparr> rows = 9223372036854775809, cols = 2, data = [1, 2 :: 32 word] \<rparr>
   \<and> GetRow m0 [] 9223372036854775808 9223372036854775809
       = Inr (\<lparr> rows = 9223372036854775809, cols = 2, data = [1, 2] \<rparr>, [3, 4])"
  by (simp add: New_def wellformed_def m0_def DropLastrows_def GetRow_def)


text \<open>
  Claim C8, amended. The invariant \<open>data.length == rows*cols\<close> (the product not
  overflowing) holds for every matrix produced by \<open>New\<close>, \<open>Zeros\<close>, \<open>Rand\<close> and
  \<open>Gaussian\<close> when \<open>rows*cols\<close> does not overflow \<open>uint64\<close>, and is preserved by \<open>Copy\<close>,
  by \<open>Concat\<close> and \<open>AppendZeros\<close> (the appended slice being one that Go can hold), by
  \<open>Set\<close>, by \<open>DropLastrows(n)\<close> for \<open>n <= rows\<close> and by \<open>GetRow(offset, num_rows)\<close> for
  \<open>offset + num_rows <= rows\<close> without wrap-around; in the last two cases the call
  returns, whatever the capacity behind the slice.
\<close>

theorem wellformed_preserved:
  fixes m a b :: "('a::len) word Matrix"
  shows "(unat r * unat c < 2 ^ 64 \<longrightarrow>
            wellformed (New r c :: 'a word Matrix)
          \<and> wellformed (Zeros r c :: 'a word Matrix)
          \<and> (\<forall>m' src'. Rand lib src r c logmod modulus = Inr (m' :: 'a word Matrix, src')
                 \<longrightarrow> wellformed m')
          \<and> (\<forall>m' src'. Gaussian lib src r c = Inr (m' :: 'a word Matrix, src')
                 \<longrightarrow> wellformed m'))
       \<and> (wellformed m \<longrightarrow> wellformed (Copy m))
       \<and> (\<forall>m'. wellformed a \<and> wellformed b \<and> length (data a) + length (data b) < 2 ^ 64
                \<and> Concat a b = Inr m' \<longrightarrow> wellformed m')
       \<and> (\<forall>m'. wellformed m \<and> length (data m) + unat n < 2 ^ 64
                \<and> AppendZeros m n = Inr m' \<longrightarrow> wellformed m')
       \<and> (wellformed m \<and> n \<le> rows m \<longrightarrow>
            (\<exists>m' spare'. DropLastrows m spare n = Inr (m', spare') \<and> wellformed m'))
       \<and> (wellformed m \<and> unat offset + unat num_rows \<le> unat (rows m) \<longrightarrow>
            (\<exists>m' spare'. GetRow m spare offset num_rows = Inr (m', spare') \<and> wellformed m'))
       \<and> (\<forall>m'. wellformed m \<and> Set m v i j = Inr m' \<longrightarrow> wellformed m')"
proof (intro conjI allI impI)
  assume rc: "unat r * unat c < 2 ^ 64"
  show "wellformed (New r c :: 'a word Matrix)" by (rule wellformed_New [OF rc])
  show "wellformed (Zeros r c :: 'a word Matrix)" by (rule wellformed_Zeros [OF rc])
  show "wellformed m'" if "Rand lib src r c logmod modulus = Inr (m', src')"
    for m' :: "'a word Matrix" and src'
    using rc that by (rule wellformed_Rand)
  show "wellformed m'" if "Gaussian lib src r c = Inr (m', src')"
    for m' :: "'a word Matrix" and src'
    using rc that by (rule wellformed_Gaussian)
next
  show "wellformed (Copy m)" if "wellformed m"
    using that by (rule wellformed_Copy)
next
  fix m'
  assume h: "wellformed a \<and> wellformed b \<and> length (data a) + length (data b) < 2 ^ 64
                \<and> Concat a b = Inr m'"
  show "wellformed m'"
  proof (cases "rows a = 0 \<and> cols a = 0")
    case True
    then show ?thesis using h by (auto simp: Concat_empty)
  next
    case False
    with h have c: "cols a = cols b"
      by (auto simp: Concat_def split: if_splits)
    from h Concat_stack [OF c False] have "m' = a\<lparr> rows := rows a + rows b, data := data a @ data b \<rparr>"
      by simp
    then show ?thesis
      using wellformed_stack [of a b] h c by simp
  qed
next
  fix m'
  assume h: "wellformed m \<and> length (data m) + unat n < 2 ^ 64 \<and> AppendZeros m n = Inr m'"
  let ?z = "Zeros n 1 :: 'a word Matrix"
  have z: "wellformed ?z"
    by (rule wellformed_Zeros_col)
  have zl: "length (data ?z) = unat n"
    by (simp add: Zeros_def New_def)
  show "wellformed m'"
  proof (cases "rows m = 0 \<and> cols m = 0")
    case True
    then show ?thesis using h z by (auto simp: AppendZeros_def Concat_empty)
  next
    case False
    with h have c: "cols m = cols ?z"
      by (auto simp: AppendZeros_def Concat_def split: if_splits)
    from h Concat_stack [OF c False]
    have "m' = m\<lparr> rows := rows m + rows ?z, data := data m @ data ?z \<rparr>"
      by (simp add: AppendZeros_def)
    then show ?thesis
      using wellformed_stack [of m ?z] h c z zl by simp
  qed
next
  assume "wellformed m \<and> n \<le> rows m"
  then show "\<exists>m' spare'. DropLastrows m spare n = Inr (m', spare') \<and> wellformed m'"
    using DropLastrows_wellformed(1) [of m n spare] DropLastrows_wellformed(2) [of m n] by blast
next
  assume "wellformed m \<and> unat offset + unat num_rows \<le> unat (rows m)"
  then show "\<exists>m' spare'. GetRow m spare offset num_rows = Inr (m', spare') \<and> wellformed m'"
    using GetRow_wellformed(1) [of m offset num_rows spare]
      GetRow_wellformed(2) [of m offset num_rows] by blast
next
  fix m'
  assume "wellformed m \<and> Set m v i j = Inr m'"
  then show "wellformed m'" by (blast intro: wellformed_Set)
qed


lemma m0_ops:
  "Concat m0 m0 = Inr \<lparr> rows = 4, cols = 2, data = [1, 2, 3, 4, 1, 2, 3, 4] \<rparr>"
  "DropLastrows m0 [] 1 = Inr (\<lparr> rows = 1, cols = 2, data = [1, 2] \<rparr>, [3, 4])"
  "GetRow m0 [] 1 1 = Inr (\<lparr> rows = 1, cols = 2, data = [3, 4] \<rparr>, [])"
  "Set m0 9 1 0 = Inr \<lparr> rows = 2, cols = 2, data = [1, 2, 9, 4] \<rparr>"
  "AppendZeros v0 2 = Inr \<lparr> rows = 4, cols = 1, data = [5, 6, 0, 0] \<rparr>"
  "Rand lib0 0 2 1 32 0 = Inr (\<lparr> rows = 2, cols = 1, data = [3, 3 :: 32 word] \<rparr>, 2)"
  "Gaussian lib0 0 2 1 = Inr (\<lparr> rows = 2, cols = 1, data = [1, 1 :: 32 word] \<rparr>, 2)"
  by code_simp+

theorem wellformed_preserved_witness:
  "unat (2 :: u64) * unat (1 :: u64) < 2 ^ 64 \<and> wellformed m0 \<and> wellformed v0
   \<and> (1 :: u64) \<le> rows m0 \<and> unat (1 :: u64) + unat (1 :: u64) \<le> unat (rows m0)
   \<and> wellformed (New 2 1 :: 32 word Matrix)
   \<and> wellformed \<lparr> rows = 2, cols = 1, data = [3, 3 :: 32 word] \<rparr>
   \<and> wellformed \<lparr> rows = 2, cols = 1, data = [1, 1 :: 32 word] \<rparr>
   \<and> wellformed (Copy m0)
   \<and> wellformed \<lparr> rows = 4, cols = 2, data = [1, 2, 3, 4, 1, 2, 3, 4 :: 32 word] \<rparr>
   \<and> wellformed \<lparr> rows = 4, cols = 1, data = [5, 6, 0, 0 :: 32 word] \<rparr>
   \<and> wellformed \<lparr> rows = 1, cols = 2, data = [1, 2 :: 32 word] \<rparr>
   \<and> wellformed \<lparr> rows = 1, cols = 2, data = [3, 4 :: 32 word] \<rparr>
   \<and> wellformed \<lparr> rows = 2, cols = 2, data = [1, 2, 9, 4 :: 32 word] \<rparr>"
proof -
  have h: "unat (2 :: u64) * unat (1 :: u64) < 2 ^ 64" "wellformed m0" "wellformed v0"
    "(1 :: u64) \<le> rows m0" "unat (1 :: u64) + unat (1 :: u64) \<le> unat (rows m0)"
    "length (data m0) + length (data m0) < 2 ^ 64" "length (data v0) + unat (2 :: u64) < 2 ^ 64"
    by (simp_all add: wellformed_def m0_def v0_def)
  note t1 = wellformed_preserved [of 2 1 lib0 0 32 0 m0 m0 m0 1 "[]" 1 1 9 1 0]
  note t2 = wellformed_preserved [of 2 1 lib0 0 32 0 v0 m0 m0 2 "[]" 1 1 9 1 0]
  have "wellformed (New 2 1 :: 32 word Matrix)"
    "wellformed \<lparr> rows = 2, cols = 1, data = [3, 3 :: 32 word] \<rparr>"
    "wellformed \<lparr> rows = 2, cols = 1, data = [1, 1 :: 32 word] \<rparr>"
    "wellformed (Copy m0)"
    "wellformed \<lparr> rows = 4, cols = 2, data = [1, 2, 3, 4, 1, 2, 3, 4 :: 32 word] \<rparr>"
    "wellformed \<lparr> rows = 1, cols = 2, data = [1, 2 :: 32 word] \<rparr>"
    "wellformed \<lparr> rows = 1, cols = 2, data = [3, 4 :: 32 word] \<rparr>"
    "wellformed \<lparr> rows = 2, cols = 2, data = [1, 2, 9, 4 :: 32 word] \<rparr>"
    using t1 h m0_ops by auto
  moreover have "wellformed \<lparr> rows = 4, cols = 1, data = [5, 6, 0, 0 :: 32 word] \<rparr>"
    using t2 h m0_ops by auto
  ultimately show ?thesis
    using h by simp
qed

section \<open>Properties of the protocol package\<close>

subsection \<open>Rounding\<close>

text \<open>
  Claim C3, as stated, fails for a plaintext modulus that does not divide \<open>Q\<close>: with
  \<open>Q = 2^5 = 32\<close> and \<open>P = 9\<close>, so \<open>Delta = 3\<close>, the value \<open>Q - 1 = 31\<close> is closer to \<open>Q\<close>
  than to \<open>Q - Delta = 29\<close>, and yet \<open>Round(31)\<close> is \<open>round(31 / 3) mod 9 = 10 mod 9 = 1\<close>.
\<close>

theorem Round_boundary_counterexample:
  "derived p9
   \<and> Q p9 - (Q p9 - 1) < (Q p9 - 1) - (Q p9 - unat (Delta p9))
   \<and> Round p9 (of_nat (Q p9 - 1)) = 1"
  by (simp add: derived_def Q_def p9_def Round_def)

lemma unat_of_nat_u64: "n < 2 ^ 64 \<Longrightarrow> unat (of_nat n :: u64) = n"
  by (simp add: unat_of_nat)

lemma Q_le: "unat (Logq p) \<le> 64 \<Longrightarrow> Q p \<le> 2 ^ 64"
  unfolding Q_def by (rule power_increasing) simp_all

lemma Delta_pos:
  assumes "derived p" "0 < unat (P p)" "unat (P p) \<le> Q p"
  shows "0 < unat (Delta p)"
  using assms by (simp add: derived_def div_greater_zero_iff)

lemma Round_scaled:
  assumes d: "derived p" and P0: "0 < unat (P p)" and PQ: "unat (P p) \<le> Q p"
    and L: "unat (Logq p) \<le> 64" and x: "x < P p"
  shows "Round p (of_nat ((unat (Delta p) * unat x) mod Q p)) = x"
proof -
  let ?D = "unat (Delta p)" and ?P = "unat (P p)"
  have D0: "0 < ?D" by (rule Delta_pos [OF d P0 PQ])
  have xP: "unat x < ?P" using x by (simp add: word_less_nat_alt)
  have "?D * unat x < ?D * ?P" using xP D0 by simp
  also have "\<dots> \<le> Q p" using d by (simp add: derived_def)
  finally have lt: "?D * unat x < Q p" .
  then have "(?D * unat x) mod Q p = ?D * unat x" "?D * unat x < 2 ^ 64"
    using Q_le [OF L] by simp_all
  then have v: "unat (of_nat ((?D * unat x) mod Q p) :: u64) = ?D * unat x"
    using unat_of_nat_u64 [of "?D * unat x"] by metis
  have "(?D * unat x + ?D div 2) div ?D = unat x"
    using D0 by simp
  then show ?thesis
    using xP by (simp add: Round_def v)
qed

lemma Round_boundary:
  assumes d: "derived p" and P0: "0 < unat (P p)"
    and L: "unat (Logq p) \<le> 64" and dv: "unat (P p) dvd Q p"
    and near: "Q p - (Q p - 1) < (Q p - 1) - (Q p - unat (Delta p))"
  shows "Round p (of_nat (Q p - 1)) = 0"
proof -
  let ?D = "unat (Delta p)" and ?P = "unat (P p)"
  have Q: "Q p = ?D * ?P"
    using d dv by (simp add: derived_def)
  have Q0: "0 < Q p" by (simp add: Q_def)
  have D2: "2 < ?D" using near by linarith
  have "Q p - 1 < 2 ^ 64"
    using Q_le [OF L] Q0 by linarith
  then have v: "unat (of_nat (Q p - 1) :: u64) = Q p - 1"
    by (rule unat_of_nat_u64)
  have "1 \<le> ?D div 2" using D2 by simp
  then have "Q p - 1 + ?D div 2 = ?P * ?D + (?D div 2 - 1)"
    using Q0 by (simp add: Q mult.commute)
  moreover have "?D div 2 - 1 < ?D" using D2 by simp
  ultimately have "(Q p - 1 + ?D div 2) div ?D = ?P"
    by simp
  then show ?thesis
    unfolding Round_def v by simp
qed

text \<open>
  Claim C3, amended. With \<open>Q = 2^logmod\<close> at most \<open>2^64\<close>, \<open>1 <= P <= Q\<close> and
  \<open>Delta = floor(Q / P)\<close>: for every \<open>x\<close> in \<open>[0, P)\<close>, \<open>Round(Delta * x mod Q) = x\<close>; and
  when moreover \<open>P\<close> divides \<open>Q\<close>, \<open>Round(Q - 1)\<close> is 0 whenever \<open>Q - 1\<close> is closer to \<open>Q\<close>
  than to \<open>Q - Delta\<close>.
\<close>

theorem Round_roundtrip:
  assumes "derived p" "0 < unat (P p)" "unat (P p) \<le> Q p" "unat (Logq p) \<le> 64"
  shows "(\<forall>x. x < P p \<longrightarrow> Round p (of_nat ((unat (Delta p) * unat x) mod Q p)) = x)
       \<and> (unat (P p) dvd Q p \<and> Q p - (Q p - 1) < (Q p - 1) - (Q p - unat (Delta p)) \<longrightarrow>
            Round p (of_nat (Q p - 1)) = 0)"
  using assms Round_scaled Round_boundary by blast

theorem Round_roundtrip_witness:
  "derived p4 \<and> 0 < unat (P p4) \<and> unat (P p4) \<le> Q p4 \<and> unat (Logq p4) \<le> 64
   \<and> Round p4 24 = 3 \<and> Round p4 31 = 0"
proof -
  have h: "derived p4" "0 < unat (P p4)" "unat (P p4) \<le> Q p4" "unat (Logq p4) \<le> 64"
    by (simp_all add: derived_def Q_def p4_def)
  have e: "(3 :: u64) < P p4" "of_nat ((unat (Delta p4) * unat (3 :: u64)) mod Q p4) = (24 :: u64)"
    "unat (P p4) dvd Q p4" "Q p4 - (Q p4 - 1) < (Q p4 - 1) - (Q p4 - unat (Delta p4))"
    "of_nat (Q p4 - 1) = (31 :: u64)"
    by (simp_all add: Q_def p4_def)
  show ?thesis
    using Round_roundtrip [OF h] h e by (metis (no_types))
qed

subsection \<open>What a returning call of QueryLHE has done\<close>

lemma QueryLHE_Inr_iff:
  "QueryLHE lib c h arrIn = Inr ((sec, qr), h', prg') \<longleftrightarrow>
     (\<exists>x s prg1 e A q0 q1 q2 q3.
        deref h arrIn = Inr x \<and> rows x = M (dbinfo c) \<and> cols x = 1
      \<and> Ne (dbinfo c) = 1
      \<and> \<not> push_bit (unat (RowLength (dbinfo c))) (1 :: u64) > P (params c)
      \<and> P (params c) AND (P (params c) - 1) = 0
      \<and> Rand lib (prg c) (N (params c)) 1 (Logq (params c)) 0 = Inr (s, prg1)
      \<and> Gaussian lib prg1 (M (dbinfo c)) 1 = Inr (e, prg')
      \<and> deref (h @ [Copy x, s, e]) (matrixA c) = Inr A
      \<and> Mul A s = Inr q0
      \<and> Add q0 e = Inr q1
      \<and> Add q1 (MulConst (Copy x) (ucast (Delta (params c)))) = Inr q2
      \<and> Squishing (dbinfo c) \<noteq> 0
      \<and> (if M (dbinfo c) mod Squishing (dbinfo c) \<noteq> 0
          then AppendZeros q2 (Squishing (dbinfo c) - M (dbinfo c) mod Squishing (dbinfo c))
          else Inr q2) = Inr q3
      \<and> h' = h @ [MulConst (Copy x) (ucast (Delta (params c))), s, e, q3, Copy q3]
      \<and> sec = \<lparr> query = length h + 4, secret = length h + 1, arr = length h \<rparr>
      \<and> qr = Query (length h + 3))"
  unfolding QueryLHE_def alloc_def Let_def Rows_def Cols_def
  apply (simp split: sum.splits prod.splits add: nth_append list_update_append Copy_def)
  apply (auto simp: nth_append list_update_append)
  done

lemma QueryLHE_frame:
  "take (length h) (store_after (QueryLHE lib c h arrIn)) = h"
  unfolding QueryLHE_def alloc_def Let_def store_after_def
  by (simp split: sum.splits prod.splits add: nth_append list_update_append)

lemma Rand_shape:
  "Rand lib src r c logmod modulus = Inr (m, src') \<Longrightarrow> rows m = r \<and> cols m = c"
  by (auto simp: Rand_def Let_def New_def split: sum.splits)

lemma Gaussian_shape:
  "Gaussian lib src r c = Inr (m, src') \<Longrightarrow>
     rows m = r \<and> cols m = c \<and> length (data m) = unat (r * c)"
  by (auto simp: Gaussian_def Let_def New_def split: sum.splits prod.splits if_splits
           dest!: Gaussian_loop_length)

lemma power_of_two_guard:
  assumes "unat (p :: u64) = 2 ^ k"
  shows "p AND (p - 1) = 0"
proof -
  have lt: "(2 :: nat) ^ k < 2 ^ 64"
    using unsigned_less [of p, where 'a = nat] assms by simp
  have k: "k < 64"
    by (rule power_less_imp_less_exp [OF _ lt]) simp
  have "p = of_nat (unat p)" by simp
  also have "\<dots> = 2 ^ k" by (simp only: assms) simp
  finally have p: "p = 2 ^ k" .
  have "(2 ^ k :: u64) AND (2 ^ k - 1) = take_bit k (2 ^ k)"
    by (simp add: take_bit_eq_mask mask_eq_exp_minus_1)
  also have "\<dots> = 0"
    by (simp add: take_bit_eq_0_iff)
  finally have "(2 ^ k :: u64) AND (2 ^ k - 1) = 0" .
  then show ?thesis by (simp add: p)
qed

lemma shift_guard:
  assumes "2 ^ unat (l :: u64) \<le> unat (p :: u64)"
  shows "\<not> push_bit (unat l) (1 :: u64) > p"
proof -
  have lt: "(2 :: nat) ^ unat l < 2 ^ 64"
    using unsigned_less [of p, where 'a = nat] assms by simp
  have "unat l < 64"
    by (rule power_less_imp_less_exp [OF _ lt]) simp
  have "unat (of_nat (2 ^ unat l) :: u64) = 2 ^ unat l"
    using lt by (simp only: unat_of_nat) simp
  then have "unat (2 ^ unat l :: u64) = 2 ^ unat l"
    by simp
  then show ?thesis
    using assms by (simp add: word_less_nat_alt)
qed

lemma padding_multiple:
  assumes "Squishing d \<noteq> 0" "unat (M d) + unat (Squishing d) \<le> 2 ^ 64"
  shows "(M d + padding d) mod Squishing d = 0"
proof (cases "M d mod Squishing d = 0")
  case True
  then show ?thesis by (simp add: padding_def)
next
  case False
  let ?m = "unat (M d)" and ?s = "unat (Squishing d)"
  have s0: "0 < ?s" using assms(1) by (simp add: unat_gt_0)
  have r: "unat (M d mod Squishing d) = ?m mod ?s" by (simp add: unat_mod)
  have r0: "0 < ?m mod ?s"
    using False r by (metis unat_gt_0)
  have rs: "?m mod ?s < ?s" using s0 by simp
  have "M d mod Squishing d \<le> Squishing d"
    using rs r by (simp add: word_le_nat_alt)
  then have p: "unat (Squishing d - M d mod Squishing d) = ?s - ?m mod ?s"
    by (simp add: unat_sub r)
  have "?m + (?s - ?m mod ?s) < 2 ^ 64"
    using assms(2) r0 rs by linarith
  then have sum: "unat (M d + (Squishing d - M d mod Squishing d)) = ?m + (?s - ?m mod ?s)"
    using p by (simp add: unat_add_lem [THEN iffD1])
  have "?m + (?s - ?m mod ?s) = ?s * (?m div ?s) + ?s"
    using rs by (simp add: minus_mod_eq_mult_div [symmetric])
  then have "(?m + (?s - ?m mod ?s)) mod ?s = 0"
    by simp
  then have "unat ((M d + padding d) mod Squishing d) = 0"
    using False sum by (simp add: padding_def unat_mod)
  then show ?thesis by (simp add: unat_eq_0)
qed

lemma Mul_column_data:
  assumes "cols a = rows b" "cols b = 1"
  shows "Mul a b = Inr \<lparr> rows = rows a, cols = 1,
           data = map (\<lambda>i. \<Sum>k\<leftarrow>[0..<unat (cols a)]. data a ! (i * unat (cols a) + k) * data b ! k)
                    [0..<unat (rows a)] \<rparr>"
  using assms by (simp add: Mul_def)

lemma AppendZeros_padded:
  fixes q :: "('a::len) word Matrix"
  assumes "cols q = 1"
  shows "AppendZeros q n = Inr \<lparr> rows = rows q + n, cols = 1, data = data q @ replicate (unat n) 0 \<rparr>"
  using assms by (simp add: AppendZeros_def Concat_def Zeros_def New_def)

lemma QueryLHE_c0: "QueryLHE lib0 c0 h0 1 = Inr ((sec0, Query 6), h0_after, 3)"
  by code_simp

text \<open>
  Claim C2. Let the plaintext vector \<open>x\<close> hold its \<open>M\<close> elements in one column, \<open>Ne = 1\<close>,
  \<open>2^L <= P\<close> and \<open>P\<close> a power of two; let the public matrix be \<open>M\<close> by \<open>N\<close>, \<open>Squishing\<close>
  not 0 (with \<open>M + Squishing\<close> within \<open>uint64\<close>) and the draws of the samplers succeed,
  giving the secret \<open>s\<close> from \<open>Rand\<close> and then the error \<open>e\<close> from \<open>Gaussian\<close>. Then
  \<open>QueryLHE\<close> returns; \<open>s\<close> is \<open>N\<close> by 1 and \<open>e\<close> is \<open>M\<close> by 1; the transmitted query is
  the one-column matrix whose first \<open>M\<close> entries are those of \<open>A\<cdot>s + e + Delta\<cdot>x\<close>
  (mod 2^width, \<open>A\<cdot>s\<close> being the triple-sum product), followed by zero rows up to a
  multiple of \<open>Squishing\<close>; and the secret holds \<open>s\<close> and, as a separate object, a copy
  of the padded query.
\<close>

theorem QueryLHE_query:
  fixes h :: "('a::len) word heap"
  assumes x: "deref h arrIn = Inr x" "wellformed x" "rows x = M (dbinfo c)" "cols x = 1"
    and par: "Ne (dbinfo c) = 1" "2 ^ unat (RowLength (dbinfo c)) \<le> unat (P (params c))"
      "\<exists>k. unat (P (params c)) = 2 ^ k"
    and A: "deref h (matrixA c) = Inr A" "rows A = M (dbinfo c)" "cols A = N (params c)"
    and sq: "Squishing (dbinfo c) \<noteq> 0"
      "unat (M (dbinfo c)) + unat (Squishing (dbinfo c)) \<le> 2 ^ 64"
    and draws: "Rand lib (prg c) (N (params c)) 1 (Logq (params c)) 0 = Inr (s, prg1)"
      "Gaussian lib prg1 (M (dbinfo c)) 1 = Inr (e, prg2)"
  shows "\<exists>sec q h' As.
           QueryLHE lib c h arrIn = Inr ((sec, Query q), h', prg2)
         \<and> rows s = N (params c) \<and> cols s = 1 \<and> rows e = M (dbinfo c) \<and> cols e = 1
         \<and> Mul A s = Inr As
         \<and> (\<forall>i < unat (M (dbinfo c)). data As ! i =
               (\<Sum>k\<leftarrow>[0..<unat (N (params c))].
                   data A ! (i * unat (N (params c)) + k) * data s ! k))
         \<and> deref h' q =
             Inr \<lparr> rows = M (dbinfo c) + padding (dbinfo c), cols = 1,
                   data = map2 (+) (map2 (+) (data As) (data e))
                            (map (\<lambda>v. v * ucast (Delta (params c))) (data x))
                          @ replicate (unat (padding (dbinfo c))) 0 \<rparr>
         \<and> length (data As) = unat (M (dbinfo c))
         \<and> length (data e) = unat (M (dbinfo c))
         \<and> length (data x) = unat (M (dbinfo c))
         \<and> (M (dbinfo c) + padding (dbinfo c)) mod Squishing (dbinfo c) = 0
         \<and> deref h' (secret sec) = Inr s
         \<and> query sec \<noteq> q \<and> deref h' (query sec) = deref h' q"
proof -
  let ?M = "M (dbinfo c)" and ?D = "ucast (Delta (params c)) :: 'a word"
  let ?pad = "padding (dbinfo c)"
  let ?x' = "MulConst (Copy x) ?D"
  have s: "rows s = N (params c)" "cols s = 1"
    using Rand_shape [OF draws(1)] by simp_all
  have e: "rows e = ?M" "cols e = 1" "length (data e) = unat ?M"
    using Gaussian_shape [OF draws(2)] by simp_all
  have lx: "length (data x) = unat ?M"
    using x(2,3,4) by (simp add: wellformed_def)
  define As where "As = \<lparr> rows = rows A, cols = 1,
           data = map (\<lambda>i. \<Sum>k\<leftarrow>[0..<unat (cols A)]. data A ! (i * unat (cols A) + k) * data s ! k)
                    [0..<unat (rows A)] \<rparr>"
  have As: "Mul A s = Inr As" "rows As = ?M" "cols As = 1" "length (data As) = unat ?M"
    using Mul_column_data [of A s] A(2,3) s by (simp_all add: As_def)
  have Ae: "\<forall>i < unat ?M. data As ! i =
      (\<Sum>k\<leftarrow>[0..<unat (N (params c))]. data A ! (i * unat (N (params c)) + k) * data s ! k)"
    using A(2,3) by (simp add: As_def)
  let ?q1 = "As\<lparr> data := map2 (+) (data As) (data e) \<rparr>"
  let ?q2 = "?q1\<lparr> data := map2 (+) (data ?q1) (data ?x') \<rparr>"
  let ?q3 = "\<lparr> rows = ?M + ?pad, cols = 1, data = data ?q2 @ replicate (unat ?pad) 0 \<rparr>"
  let ?h' = "h @ [?x', s, e, ?q3, Copy ?q3]"
  have a1: "Add As e = Inr ?q1"
    using As e by (simp add: Add_def)
  have a2: "Add ?q1 ?x' = Inr ?q2"
    using As x(3,4) by (simp add: Add_def MulConst_def Copy_def)
  have pd: "(if ?M mod Squishing (dbinfo c) \<noteq> 0
             then AppendZeros ?q2 (Squishing (dbinfo c) - ?M mod Squishing (dbinfo c))
             else Inr ?q2) = Inr ?q3"
    using As by (simp add: AppendZeros_padded padding_def)
  have dA: "deref (h @ [Copy x, s, e]) (matrixA c) = Inr A"
    using A(1) by (auto simp: deref_def nth_append split: if_splits)
  have pg: "P (params c) AND (P (params c) - 1) = 0"
    using par(3) by (auto intro: power_of_two_guard)
  note sg = shift_guard [OF par(2)]
  have Q: "QueryLHE lib c h arrIn =
      Inr ((\<lparr> query = length h + 4, secret = length h + 1, arr = length h \<rparr>,
            Query (length h + 3)), ?h', prg2)"
    unfolding QueryLHE_Inr_iff
    apply (rule exI [of _ x], rule exI [of _ s], rule exI [of _ prg1], rule exI [of _ e])
    apply (rule exI [of _ A], rule exI [of _ As], rule exI [of _ ?q1], rule exI [of _ ?q2])
    apply (rule exI [of _ ?q3])
    apply (intro conjI)
    apply (rule x(1) x(3) x(4) par(1) sg pg draws dA As(1) a1 a2 sq(1) pd refl)+
    done
  have dq: "deref ?h' (length h + 3) = Inr ?q3"
    by (simp add: deref_def nth_append)
  have ds: "deref ?h' (length h + 1) = Inr s"
    by (simp add: deref_def nth_append)
  have dc: "deref ?h' (length h + 4) = Inr ?q3"
    by (simp add: deref_def nth_append Copy_def)
  have "data ?q2 = map2 (+) (map2 (+) (data As) (data e)) (map (\<lambda>v. v * ?D) (data x))"
    by (simp add: MulConst_def Copy_def)
  then have dq': "deref ?h' (length h + 3) =
             Inr \<lparr> rows = ?M + ?pad, cols = 1,
                   data = map2 (+) (map2 (+) (data As) (data e))
                            (map (\<lambda>v. v * ?D) (data x))
                          @ replicate (unat ?pad) 0 \<rparr>"
    using dq by simp
  have pm: "(?M + ?pad) mod Squishing (dbinfo c) = 0"
    by (rule padding_multiple [OF sq])
  show ?thesis
    apply (rule exI [of _ "\<lparr> query = length h + 4, secret = length h + 1, arr = length h \<rparr>"])
    apply (rule exI [of _ "length h + 3"])
    apply (rule exI [of _ ?h'])
    apply (rule exI [of _ As])
    using Q s e As(1,4) Ae lx dq' pm ds dc dq
    apply simp
    done
qed

theorem QueryLHE_query_witness:
  "deref h0 1 = Inr x0 \<and> wellformed x0 \<and> rows x0 = M (dbinfo c0) \<and> cols x0 = 1
   \<and> Ne (dbinfo c0) = 1 \<and> 2 ^ unat (RowLength (dbinfo c0)) \<le> unat (P (params c0))
   \<and> unat (P (params c0)) = 2 ^ 1
   \<and> deref h0 (matrixA c0) = Inr A0 \<and> rows A0 = M (dbinfo c0) \<and> cols A0 = N (params c0)
   \<and> Squishing (dbinfo c0) \<noteq> 0
   \<and> Rand lib0 (prg c0) (N (params c0)) 1 (Logq (params c0)) 0 = Inr (s0, 1)
   \<and> Gaussian lib0 1 (M (dbinfo c0)) 1 = Inr (e0, 3)
   \<and> QueryLHE lib0 c0 h0 1 = Inr ((sec0, Query 6), h0_after, 3)
   \<and> Mul A0 s0 = Inr \<lparr> rows = 2, cols = 1, data = [15, 21] \<rparr>
   \<and> deref h0_after 6 = Inr \<lparr> rows = 3, cols = 1, data = [2147483664, 22, 0] \<rparr>
   \<and> padding (dbinfo c0) = 1
   \<and> (M (dbinfo c0) + padding (dbinfo c0)) mod Squishing (dbinfo c0) = 0
   \<and> deref h0_after (secret sec0) = Inr s0
   \<and> deref h0_after (query sec0) = deref h0_after 6"
proof -
  have x: "deref h0 1 = Inr x0" "rows x0 = M (dbinfo c0)" "cols x0 = 1"
    by code_simp+
  have wf: "wellformed x0"
    by (simp add: wellformed_def x0_def)
  have par: "Ne (dbinfo c0) = 1" "2 ^ unat (RowLength (dbinfo c0)) \<le> unat (P (params c0))"
    "unat (P (params c0)) = 2 ^ 1"
    by (simp_all add: c0_def)
  then have pk: "\<exists>k. unat (P (params c0)) = 2 ^ k" by blast
  have A: "deref h0 (matrixA c0) = Inr A0" "rows A0 = M (dbinfo c0)" "cols A0 = N (params c0)"
    by code_simp+
  have sq: "Squishing (dbinfo c0) \<noteq> 0"
    "unat (M (dbinfo c0)) + unat (Squishing (dbinfo c0)) \<le> 2 ^ 64"
    by (simp_all add: c0_def)
  have draws: "Rand lib0 (prg c0) (N (params c0)) 1 (Logq (params c0)) 0 = Inr (s0, 1)"
    "Gaussian lib0 1 (M (dbinfo c0)) 1 = Inr (e0, 3)"
    by code_simp+
  have ev: "padding (dbinfo c0) = 1"
    "map2 (+) (map2 (+) [15, 21] (data e0))
        (map (\<lambda>v. v * ucast (Delta (params c0))) (data x0)) @ replicate (unat (1 :: u64)) 0
      = [2147483664, 22, 0 :: 32 word]"
    "M (dbinfo c0) + 1 = 3"
    by code_simp+
  from QueryLHE_query [OF x(1) wf x(2,3) par(1,2) pk A sq draws]
  obtain sec q h' As where r:
    "QueryLHE lib0 c0 h0 1 = Inr ((sec, Query q), h', 3)"
    "Mul A0 s0 = Inr As"
    "deref h' q =
       Inr \<lparr> rows = M (dbinfo c0) + padding (dbinfo c0), cols = 1,
             data = map2 (+) (map2 (+) (data As) (data e0))
                      (map (\<lambda>v. v * ucast (Delta (params c0))) (data x0))
                    @ replicate (unat (padding (dbinfo c0))) 0 \<rparr>"
    "(M (dbinfo c0) + padding (dbinfo c0)) mod Squishing (dbinfo c0) = 0"
    "deref h' (secret sec) = Inr s0"
    "deref h' (query sec) = deref h' q"
    by (elim exE conjE) (rule that, assumption+)
  have id: "sec = sec0" "q = 6" "h' = h0_after"
    using r(1) QueryLHE_c0 by simp_all
  have m: "Mul A0 s0 = Inr \<lparr> rows = 2, cols = 1, data = [15, 21] \<rparr>"
    by code_simp
  then have As: "data As = [15, 21]"
    using r(2) by auto
  have "deref h0_after 6 = Inr \<lparr> rows = 3, cols = 1, data = [2147483664, 22, 0] \<rparr>"
    using r(3) unfolding id As ev by simp
  then show ?thesis
    using x wf par A sq(1) draws QueryLHE_c0 m ev(1) r(4,5,6) unfolding id by simp
qed

subsection \<open>The plaintext vector kept in the secret\<close>

text \<open>
  Claim C5, as stated, fails: \<open>s.arr\<close> is the pointer \<open>arr\<close>, and \<open>QueryLHE\<close> scales the
  matrix behind it in place afterwards. For the input \<open>x0 = [1, 0]\<close> and \<open>Delta = 2^31\<close>
  the secret holds \<open>[2147483648, 0]\<close>.
\<close>

theorem QueryLHE_secret_arr_counterexample:
  "deref h0 1 = Inr x0
   \<and> QueryLHE lib0 c0 h0 1 = Inr ((sec0, Query 6), h0_after, 3)
   \<and> deref h0_after (arr sec0) = Inr \<lparr> rows = 2, cols = 1, data = [2147483648, 0] \<rparr>
   \<and> data x0 = [1, 0]"
  by code_simp

text \<open>
  Claim C5, amended. After \<open>QueryLHE\<close> returns, the vector kept in the secret has the
  dimensions of the caller's input \<open>x\<close>, and its entries are those of \<open>x\<close> multiplied by
  \<open>Delta\<close> (mod 2^width).
\<close>

theorem QueryLHE_secret_arr:
  assumes "QueryLHE lib c h arrIn = Inr ((sec, qr), h', prg')"
  shows "\<exists>x. deref h arrIn = Inr x
           \<and> deref h' (arr sec) =
               Inr \<lparr> rows = rows x, cols = cols x,
                     data = map (\<lambda>v. v * ucast (Delta (params c))) (data x) \<rparr>"
  using assms unfolding QueryLHE_Inr_iff
  by (auto simp: deref_def MulConst_def Copy_def split: if_splits)

theorem QueryLHE_secret_arr_witness:
  "QueryLHE lib0 c0 h0 1 = Inr ((sec0, Query 6), h0_after, 3)
   \<and> deref h0 1 = Inr x0
   \<and> deref h0_after (arr sec0) = Inr \<lparr> rows = 2, cols = 1, data = [2147483648, 0] \<rparr>"
proof -
  have e: "map (\<lambda>v. v * ucast (Delta (params c0))) (data x0) = [2147483648, 0 :: 32 word]"
    "rows x0 = 2" "cols x0 = 1" "deref h0 1 = Inr x0"
    by code_simp+
  show ?thesis
    using QueryLHE_secret_arr [OF QueryLHE_c0] QueryLHE_c0 e by auto
qed

subsection \<open>The caller's plaintext vector\<close>

text \<open>
  Claim C10. \<open>QueryLHE\<close> never changes its input: whether the call returns or panics,
  every matrix object that existed before the call is the same afterwards, and in
  particular the object behind \<open>arrIn\<close> has the same dimensions and elements. The call
  writes only to objects it has allocated itself, the first being the copy of \<open>arrIn\<close>.
\<close>

theorem QueryLHE_input_unchanged:
  "take (length h) (store_after (QueryLHE lib c h arrIn)) = h
   \<and> (\<forall>x. deref h arrIn = Inr x \<longrightarrow>
          deref (store_after (QueryLHE lib c h arrIn)) arrIn = Inr x)"
proof -
  let ?h' = "store_after (QueryLHE lib c h arrIn)"
  have t: "take (length h) ?h' = h" by (rule QueryLHE_frame)
  have l: "length h \<le> length ?h'"
    using arg_cong [OF t, of length] by simp
  have "deref ?h' arrIn = Inr x" if "deref h arrIn = Inr x" for x
  proof -
    from that have a: "arrIn < length h" and x: "h ! arrIn = x"
      by (auto simp: deref_def split: if_splits)
    have "?h' ! arrIn = take (length h) ?h' ! arrIn"
      using a by simp
    then show ?thesis
      using a l x t by (simp add: deref_def)
  qed
  with t show ?thesis by blast
qed

theorem QueryLHE_input_unchanged_witness:
  "deref h0 1 = Inr x0
   \<and> QueryLHE lib0 c0 h0 1 = Inr ((sec0, Query 6), h0_after, 3)
   \<and> deref h0_after 1 = Inr x0
   \<and> QueryLHE lib0 c_ne2 h0 1 = Inl (UnsupportedParameter, h0 @ [x0])
   \<and> deref (h0 @ [x0]) 1 = Inr x0"
proof -
  have e: "deref h0 1 = Inr x0"
    "QueryLHE lib0 c_ne2 h0 1 = Inl (UnsupportedParameter, h0 @ [x0])"
    by code_simp+
  have "deref (store_after (QueryLHE lib0 c0 h0 1)) 1 = Inr x0"
    "deref (store_after (QueryLHE lib0 c_ne2 h0 1)) 1 = Inr x0"
    using QueryLHE_input_unchanged [of h0 lib0 c0 1]
      QueryLHE_input_unchanged [of h0 lib0 c_ne2 1] e(1) by blast+
  then show ?thesis
    using e QueryLHE_c0 by (simp add: store_after_def)
qed

subsection \<open>The parameter checks of QueryLHE\<close>

text \<open>
  The two checks of \<open>QueryLHE\<close> are the only source of \<open>UnsupportedParameter\<close>, and for
  a row length below 64 bits they say exactly: \<open>Ne != 1\<close>, or \<open>2^L > P\<close>, or \<open>P\<close> is not a
  power of two.
\<close>

lemma nat_power_of_two:
  fixes n :: nat
  shows "0 < n \<Longrightarrow> n AND (n - 1) = 0 \<Longrightarrow> \<exists>k. n = 2 ^ k"
proof (induction n rule: less_induct)
  case (less n)
  have rec: "n AND (n - 1) = of_bool (odd n \<and> odd (n - 1)) + 2 * ((n div 2) AND ((n - 1) div 2))"
    by (rule and_rec)
  show ?case
  proof (cases "even n")
    case True
    then obtain m where n: "n = 2 * m" by (elim evenE)
    with less.prems(1) have m: "0 < m" "m < n" by simp_all
    have "(n - 1) div 2 = m - 1"
      using n m by simp
    then have "m AND (m - 1) = 0"
      using rec less.prems(2) n by simp
    from less.IH [OF m(2) m(1) this] obtain k where "m = 2 ^ k" ..
    then have "n = 2 ^ Suc k" using n by simp
    then show ?thesis ..
  next
    case False
    then obtain m where n: "n = 2 * m + 1" by (elim oddE)
    then have "(n - 1) div 2 = m" "n div 2 = m" by simp_all
    then have "m = 0"
      using rec less.prems(2) by simp
    then have "n = 2 ^ 0" using n by simp
    then show ?thesis ..
  qed
qed

lemma word_power_of_two:
  fixes p :: u64
  assumes "p \<noteq> 0" "p AND (p - 1) = 0"
  shows "\<exists>k. unat p = 2 ^ k"
proof -
  have "unat (p AND (p - 1)) = unat p AND unat (p - 1)"
    by (rule unsigned_and_eq)
  also have "unat (p - 1) = unat p - 1"
    using assms(1) by (rule unat_minus_one)
  finally have "unat p AND (unat p - 1) = 0"
    using assms(2) by simp
  moreover have "0 < unat p"
    using assms(1) by (simp add: unat_gt_0)
  ultimately show ?thesis
    by (intro nat_power_of_two)
qed

lemma Rand_loop_error: "Rand_loop lib m src xs = Inl e \<Longrightarrow> e \<noteq> UnsupportedParameter"
  by (induction xs arbitrary: src) (auto split: if_splits option.splits sum.splits)

lemma Rand_error: "Rand lib src r c logmod modulus = Inl e \<Longrightarrow> e \<noteq> UnsupportedParameter"
  by (auto simp: Rand_def Let_def split: sum.splits dest: Rand_loop_error)

lemma Gaussian_error: "Gaussian lib src r c = Inl e \<Longrightarrow> e \<noteq> UnsupportedParameter"
  by (auto simp: Gaussian_def Let_def Is32Bit_def Is64Bit_def split: sum.splits if_splits prod.splits)

lemma matrix_errors:
  "deref h p = Inl e \<Longrightarrow> e \<noteq> UnsupportedParameter"
  "Mul a b = Inl e \<Longrightarrow> e \<noteq> UnsupportedParameter"
  "Add a b = Inl e \<Longrightarrow> e \<noteq> UnsupportedParameter"
  "AppendZeros a n = Inl e \<Longrightarrow> e \<noteq> UnsupportedParameter"
  by (auto simp: deref_def Mul_def Add_def AppendZeros_def Concat_def split: if_splits)

lemma QueryLHE_UnsupportedParameter_guards:
  assumes "deref h arrIn = Inr x" "rows x = M (dbinfo c)" "cols x = 1"
  shows "(\<exists>h'. QueryLHE lib c h arrIn = Inl (UnsupportedParameter, h')) \<longleftrightarrow>
           Ne (dbinfo c) \<noteq> 1
         \<or> push_bit (unat (RowLength (dbinfo c))) (1 :: u64) > P (params c)
         \<or> P (params c) AND (P (params c) - 1) \<noteq> 0"
  using assms unfolding QueryLHE_def alloc_def Let_def Rows_def Cols_def
  by (auto simp: Copy_def nth_append split: sum.splits prod.splits if_splits
           dest: Rand_error Gaussian_error matrix_errors)

lemma QueryLHE_UnsupportedParameter_iff:
  assumes x: "deref h arrIn = Inr x" "rows x = M (dbinfo c)" "cols x = 1"
    and L: "unat (RowLength (dbinfo c)) < 64"
  shows "(\<exists>h'. QueryLHE lib c h arrIn = Inl (UnsupportedParameter, h')) \<longleftrightarrow>
           Ne (dbinfo c) \<noteq> 1
         \<or> unat (P (params c)) < 2 ^ unat (RowLength (dbinfo c))
         \<or> \<not> (\<exists>k. unat (P (params c)) = 2 ^ k)"
proof -
  let ?p = "P (params c)" and ?l = "unat (RowLength (dbinfo c))"
  have "(2 :: nat) ^ ?l < 2 ^ 64"
    using L by (intro power_strict_increasing) simp_all
  then have "unat (of_nat (2 ^ ?l) :: u64) = 2 ^ ?l"
    by (simp only: unat_of_nat) simp
  then have u: "unat (2 ^ ?l :: u64) = 2 ^ ?l" by simp
  then have g1: "push_bit ?l (1 :: u64) > ?p \<longleftrightarrow> unat ?p < 2 ^ ?l"
    by (simp add: word_less_nat_alt)
  have g2: "?p AND (?p - 1) \<noteq> 0 \<longleftrightarrow> \<not> (\<exists>k. unat ?p = 2 ^ k)" if "\<not> unat ?p < 2 ^ ?l"
  proof -
    from that have "0 < unat ?p"
      by (metis not_less zero_less_numeral zero_less_power less_le_trans)
    then have "?p \<noteq> 0" by auto
    then show ?thesis
      using word_power_of_two [of ?p] power_of_two_guard [of ?p] by blast
  qed
  show ?thesis
    unfolding QueryLHE_UnsupportedParameter_guards [OF x] g1 using g2 by blast
qed

text \<open>
  Claim C7 at a row length of 64 bits. The input vector has the right shape, \<open>Ne = 1\<close>
  and \<open>P = 2\<close> is a power of two, but \<open>2^L = 2^64 > P\<close>: the claim demands the failure
  \<open>UnsupportedParameter\<close>. In the code \<open>1 << 64\<close> is 0 in \<open>uint64\<close>, the check
  \<open>(1 << L) > P\<close> does not fire and \<open>QueryLHE\<close> returns a query.
\<close>

theorem QueryLHE_RowLength_64:
  "deref h0 1 = Inr x0 \<and> rows x0 = M (dbinfo c64) \<and> cols x0 = 1
   \<and> Ne (dbinfo c64) = 1
   \<and> unat (P (params c64)) = 2 ^ 1
   \<and> unat (P (params c64)) < 2 ^ unat (RowLength (dbinfo c64))
   \<and> QueryLHE lib0 c64 h0 1 = Inr ((sec0, Query 6), h0_after, 3)"
proof -
  have a: "deref h0 1 = Inr x0" "rows x0 = M (dbinfo c64)" "cols x0 = 1" "Ne (dbinfo c64) = 1"
    by code_simp+
  have b: "unat (P (params c64)) = 2 ^ 1"
    "unat (P (params c64)) < 2 ^ unat (RowLength (dbinfo c64))"
    by (simp_all add: c64_def c0_def)
  have c: "QueryLHE lib0 c64 h0 1 = Inr ((sec0, Query 6), h0_after, 3)"
    by code_simp
  show ?thesis
    by (intro conjI a b c)
qed

theorem QueryLHE_RowLength_64_witness:
  "unat (P (params c64)) < 2 ^ unat (RowLength (dbinfo c64))
   \<and> QueryLHE lib0 c64 h0 1 = QueryLHE lib0 c0 h0 1"
  using QueryLHE_RowLength_64 QueryLHE_c0 by simp

subsection \<open>RecoverManyLHE\<close>







lemma RecoverManyLHE_cR:
  "RecoverManyLHE cR hR1 sR (Answer 2) =
     Inr (5, hR1 @ [\<lparr> rows = 1, cols = 1, data = [4] \<rparr>,
                    \<lparr> rows = 1, cols = 1, data = [0] \<rparr>,
                    \<lparr> rows = 1, cols = 1, data = [1] \<rparr>])"
  "RecoverManyLHE cR hR2 sR (Answer 2) =
     Inr (5, hR2 @ [\<lparr> rows = 2, cols = 1, data = [0, 1] \<rparr>,
                    \<lparr> rows = 2, cols = 1, data = [0, 0] \<rparr>,
                    \<lparr> rows = 2, cols = 1, data = [0, 0] \<rparr>])"
  by code_simp+



end
